theory Spec2Isabelle
  imports Main
begin

section \<open>Types as \<^verbatim>\<open>reflect.Type\<close> shows them\<close>

text \<open>
  The kinds of \<^verbatim>\<open>reflect.Kind\<close>. The scan code tells pointers, slices and structs
  apart from everything else, so the other kinds are grouped under \<open>Other\<close>; a type
  of such a kind is a \<open>Basic\<close> type below.
\<close>

datatype bkind =
    Invalid | Bool | Int' | Int8 | Int16 | Int32 | Int64
  | Uint | Uint8 | Uint16 | Uint32 | Uint64 | Uintptr
  | Float32 | Float64 | Complex64 | Complex128
  | Array | Chan | Func | Interface | Map | String | UnsafePointer

datatype kind = Ptr | Slice | Struct | Other bkind

text \<open>
  What the scan code asks of a struct field: its declared name, whether it is exported,
  whether it is embedded (or marked for recursive inclusion), whether it is marked
  to be ignored.
\<close>

record fieldinfo =
  fname :: string
  exported :: bool
  embedded :: bool
  ignored :: bool

text \<open>
  A type. The string is \<^verbatim>\<open>t.Name()\<close> (empty for an unnamed type); the flag says
  whether the pointer type \<^verbatim>\<open>*t\<close> implements \<^verbatim>\<open>sql.Scanner\<close>, which is what
  \<^verbatim>\<open>reflect.PtrTo(t).Implements(_scannerInterface)\<close> asks. A pointer type has no
  methods of its own, so a pointer to it never implements the interface.
\<close>

datatype gotype =
    Basic bkind string bool
  | PtrT gotype
  | SliceT string bool gotype
  | StructT string bool "(fieldinfo \<times> gotype) list"

fun Kind :: "gotype \<Rightarrow> kind" where
  "Kind (Basic b n s) = Other b"
| "Kind (PtrT t) = Ptr"
| "Kind (SliceT n s t) = Slice"
| "Kind (StructT n s fs) = Struct"

fun Name :: "gotype \<Rightarrow> string" where
  "Name (Basic b n s) = n"
| "Name (PtrT t) = []"
| "Name (SliceT n s t) = n"
| "Name (StructT n s fs) = n"

text \<open>\<^verbatim>\<open>reflect.PtrTo(t).Implements(_scannerInterface)\<close>.\<close>

fun ptrImplementsScanner :: "gotype \<Rightarrow> bool" where
  "ptrImplementsScanner (Basic b n s) = s"
| "ptrImplementsScanner (PtrT t) = False"
| "ptrImplementsScanner (SliceT n s t) = s"
| "ptrImplementsScanner (StructT n s fs) = s"

section \<open>The reflectx helpers\<close>

text \<open>
  Package reflectx (\<^verbatim>\<open>Deref\<close>, \<^verbatim>\<open>NewMapperFunc\<close>, \<^verbatim>\<open>Mapper.TypeMap\<close>,
  \<^verbatim>\<open>Mapper.TraversalsByName\<close>, \<^verbatim>\<open>FieldByIndexes\<close>) is imported by the scan code
  and is not among the sources; what the scan code uses of it is modelled here from the
  specification.
\<close>

text \<open>
  Modelled from the spec: \<^verbatim>\<open>reflectx.Deref\<close>, the dereference of a type ("a non-null
  reference to a growable sequence", "elements stored by reference or by value"): a
  pointer type gives its element type, any other type is returned as it is.
\<close>

fun Deref :: "gotype \<Rightarrow> gotype" where
  "Deref (PtrT t) = t"
| "Deref t = t"

text \<open>
  A name normaliser is a Go function value: the model keeps the identity of the value
  (what comparing two \<^verbatim>\<open>reflect.ValueOf\<close> results of functions compares) beside what
  the function computes.
\<close>

record namefn =
  fn_id :: nat
  fn_apply :: "string \<Rightarrow> string"

text \<open>
  Modelled from the spec: a \<^verbatim>\<open>reflectx.Mapper\<close>. Its memo table is keyed by type and
  holds, for a type, the structure map computed with the mapper's own normaliser, so the
  mapper is described by the tag name and the normaliser it was built from.
\<close>

record Mapper =
  tagName :: string
  mapFunc :: namefn

text \<open>Modelled from the spec: \<^verbatim>\<open>reflectx.NewMapperFunc\<close>, a mapper for a tag name and
  a normaliser, with nothing memoized yet.\<close>

definition NewMapperFunc :: "string \<Rightarrow> namefn \<Rightarrow> Mapper" where
  "NewMapperFunc tag f = \<lparr>tagName = tag, mapFunc = f\<rparr>"

text \<open>
  Modelled from the spec: the structure map of a composite type (section 4.2). The fields are
  walked in declaration order; an unexported or ignored field is left out; a field that
  is itself a composite without the decode capability and is embedded (or marked for
  recursive inclusion) contributes its own entries, each path prefixed with the field's
  position; any other field gets the one-element path of its position, keyed by its
  canonical name.
\<close>

fun fieldEntries :: "(string \<Rightarrow> string) \<Rightarrow> nat \<Rightarrow> (fieldinfo \<times> gotype) list \<Rightarrow> (string \<times> nat list) list"
  and structEntries :: "(string \<Rightarrow> string) \<Rightarrow> gotype \<Rightarrow> (string \<times> nat list) list"
where
  "fieldEntries f i [] = []"
| "fieldEntries f i ((fi, t) # rest) =
     (if \<not> exported fi \<or> ignored fi then []
      else if Kind t = Struct \<and> \<not> ptrImplementsScanner t \<and> embedded fi
        then map (\<lambda>(n, p). (n, i # p)) (structEntries f t)
        else [(f (fname fi), [i])])
     @ fieldEntries f (Suc i) rest"
| "structEntries f (StructT n s fs) = fieldEntries f 0 fs"
| "structEntries f (Basic b n s) = []"
| "structEntries f (PtrT t) = []"
| "structEntries f (SliceT n s t) = []"

text \<open>Modelled from the spec: \<^verbatim>\<open>m.TypeMap(t).Index\<close>, the entries of the structure
  map of \<open>t\<close>, in path order.\<close>

definition TypeMapIndex :: "Mapper \<Rightarrow> gotype \<Rightarrow> (string \<times> nat list) list" where
  "TypeMapIndex m t = structEntries (fn_apply (mapFunc m)) t"

text \<open>
  Modelled from the spec: \<^verbatim>\<open>m.TraversalsByName(t, names)\<close>, one path per requested
  name, in the order of the names; the first entry of that name wins, and a name
  without an entry gives the empty path.
\<close>

definition TraversalsByName :: "Mapper \<Rightarrow> gotype \<Rightarrow> string list \<Rightarrow> nat list list" where
  "TraversalsByName m t names =
     map (\<lambda>n. case map_of (TypeMapIndex m t) n of None \<Rightarrow> [] | Some p \<Rightarrow> p) names"

section \<open>The process-wide mapper\<close>

text \<open>
  The package variables \<^verbatim>\<open>NameMapper\<close>, \<^verbatim>\<open>origMapper\<close> and \<^verbatim>\<open>mpr\<close>. At start-up
  \<^verbatim>\<open>NameMapper\<close> is \<^verbatim>\<open>strings.ToLower\<close>, \<^verbatim>\<open>origMapper\<close> is its identity and
  \<^verbatim>\<open>mpr\<close> is nil.
\<close>

record globals =
  NameMapper :: namefn
  origMapper :: nat
  mpr :: "Mapper option"

definition init_globals :: "namefn \<Rightarrow> globals" where
  "init_globals toLower = \<lparr>NameMapper = toLower, origMapper = fn_id toLower, mpr = None\<rparr>"

text \<open>An assignment to the exported variable \<^verbatim>\<open>NameMapper\<close>.\<close>

definition set_NameMapper :: "namefn \<Rightarrow> globals \<Rightarrow> globals" where
  "set_NameMapper f g = g\<lparr>NameMapper := f\<rparr>"

definition mapper :: "globals \<Rightarrow> Mapper \<times> globals" where
  "mapper g =
     (case mpr g of
        None \<Rightarrow>
          (let m = NewMapperFunc ''db'' (NameMapper g) in (m, g\<lparr>mpr := Some m\<rparr>))
      | Some m0 \<Rightarrow>
          if origMapper g \<noteq> fn_id (NameMapper g)
          then (let m = NewMapperFunc ''db'' (NameMapper g)
                in (m, g\<lparr>mpr := Some m, origMapper := fn_id (NameMapper g)\<rparr>))
          else (m0, g))"

section \<open>The scannability classifier\<close>

definition isScannable :: "globals \<Rightarrow> gotype \<Rightarrow> bool \<times> globals" where
  "isScannable g t =
     (if ptrImplementsScanner t then (True, g)
      else if Kind t \<noteq> Struct then (True, g)
      else (let (m, g') = mapper g
            in if length (TypeMapIndex m t) = 0 then (True, g') else (False, g')))"

section \<open>Errors\<close>

text \<open>
  One constructor for each error the scan code builds, with the arguments of its
  message, and one for an error handed over by the cursor, which is passed on as it is.
  \<open>Panic\<close> stands for a run-time panic of the Go program.
\<close>

datatype error =
    MustPassPointer
  | NilPointerPassed
  | ExpectedButGot kind kind
  | NonStructDest kind nat
  | MissingDestName string gotype
  | ArgNotStruct
  | MissingField
  | ImplementsScanner string
  | NoExportedFields string
  | CursorError string
  | Panic string

text \<open>The message of each error, as the format string the code passes
  to \<^verbatim>\<open>errors.New\<close> or \<^verbatim>\<open>fmt.Errorf\<close>.\<close>

fun errorFormat :: "error \<Rightarrow> string" where
  "errorFormat MustPassPointer = ''must pass a pointer, not a value, to StructScan destination''"
| "errorFormat NilPointerPassed = ''nil pointer passed to StructScan destination''"
| "errorFormat (ExpectedButGot e k) = ''expected %s but got %s''"
| "errorFormat (NonStructDest k n) = ''non-struct dest type %s with >1 columns (%d)''"
| "errorFormat (MissingDestName c t) = ''missing destination name %s in %T''"
| "errorFormat ArgNotStruct = ''argument not a struct''"
| "errorFormat MissingField = ''missing field''"
| "errorFormat (ImplementsScanner n) =
     ''structscan expects a struct dest but the provided struct type %s implements scanner''"
| "errorFormat (NoExportedFields n) = ''expected a struct, but struct %s has no exported fields''"
| "errorFormat (CursorError m) = m"
| "errorFormat (Panic m) = m"

text \<open>
  The error kinds of the specification (section 7), as sets of the errors above.
  \<open>ExpectedButGot\<close> is built in two places: by \<open>baseType\<close>, which scanAll calls with
  the expected kind \<open>Slice\<close>, and by \<open>structOnlyError\<close>, with the expected kind \<open>Struct\<close>.
\<close>

fun InvalidDestination :: "error \<Rightarrow> bool" where
  "InvalidDestination MustPassPointer = True"
| "InvalidDestination NilPointerPassed = True"
| "InvalidDestination (ExpectedButGot e k) = (e = Slice)"
| "InvalidDestination _ = False"

fun StructOnlyViolation :: "error \<Rightarrow> bool" where
  "StructOnlyViolation (ExpectedButGot e k) = (e = Struct)"
| "StructOnlyViolation (ImplementsScanner n) = True"
| "StructOnlyViolation (NoExportedFields n) = True"
| "StructOnlyViolation _ = False"

fun ShapeMismatch :: "error \<Rightarrow> bool" where
  "ShapeMismatch (NonStructDest k n) = True"
| "ShapeMismatch _ = False"

section \<open>Values, decode slots and the cursor\<close>

text \<open>
  A value built by a scan. The values a cursor decodes are opaque (\<open>'v\<close>). A struct
  instance is seen as the scan engine sees it: the fields it has written, by traversal
  path; a field that was never written holds its zero value.
\<close>

datatype 'v goval =
    ZeroVal
  | Decoded 'v
  | StructVal "nat list \<Rightarrow> 'v option"
  | PtrVal "'v goval"

text \<open>\<^verbatim>\<open>reflect.New(base)\<close>, dereferenced: the zero value of the type.\<close>

definition New :: "gotype \<Rightarrow> 'v goval" where
  "New t = (if Kind t = Struct then StructVal Map.empty else ZeroVal)"

text \<open>
  One entry of the row buffer \<^verbatim>\<open>values\<close>: the nil interface that \<^verbatim>\<open>make\<close> leaves,
  a fresh \<^verbatim>\<open>new(interface{})\<close> that nobody reads, the address of the field at a
  path of the new instance, a copy of that field's value, or the address of the new
  instance itself.
\<close>

datatype slot = NilSlot | Discard | FieldAddr "nat list" | FieldCopy "nat list" | SelfAddr

text \<open>
  The fields of \<^verbatim>\<open>Row\<close>, \<^verbatim>\<open>Rows\<close>, \<^verbatim>\<open>Stmt\<close>, \<^verbatim>\<open>DB\<close> and \<^verbatim>\<open>Tx\<close> that the scan code
  reads, and the dynamic types the type switches of \<open>isUnsafe\<close> and \<open>scanAll\<close> tell apart.
\<close>

record wrapper =
  unsafe :: bool
  Mapper :: Mapper

datatype handle =
    Row wrapper | PtrRow wrapper
  | Rows wrapper | PtrRows wrapper
  | Stmt wrapper | PtrStmt wrapper
  | DB wrapper | PtrDB wrapper
  | Tx wrapper | PtrTx wrapper
  | SqlRows | PtrSqlRows
  | OtherType

fun isUnsafe :: "handle \<Rightarrow> bool" where
  "isUnsafe (Row v) = unsafe v"
| "isUnsafe (PtrRow v) = unsafe v"
| "isUnsafe (Rows v) = unsafe v"
| "isUnsafe (PtrRows v) = unsafe v"
| "isUnsafe (Stmt v) = unsafe v"
| "isUnsafe (PtrStmt v) = unsafe v"
| "isUnsafe (DB v) = unsafe v"
| "isUnsafe (PtrDB v) = unsafe v"
| "isUnsafe (Tx v) = unsafe v"
| "isUnsafe (PtrTx v) = unsafe v"
| "isUnsafe SqlRows = False"
| "isUnsafe PtrSqlRows = False"
| "isUnsafe OtherType = False"

text \<open>
  Modelled from the spec: the cursor behind the interface \<^verbatim>\<open>rowsi\<close> (section 6; its
  implementations are not among the sources). A cursor has a dynamic type, an answer to
  \<^verbatim>\<open>Columns\<close>, an ordered, finite sequence of rows still to come, the row the last
  \<^verbatim>\<open>Next\<close> stepped onto, and an end-of-iteration error. A row is the outcome of
  decoding it: an error, or one value per column. The calls a cursor has received are
  recorded in \<open>calls\<close>.
\<close>

datatype call = Call_Columns | Call_Next | Call_Scan "slot list" | Call_Err

record 'v rowsi =
  dyn :: handle
  columns_result :: "string + string list"
  pending :: "(string + 'v list) list"
  current :: "(string + 'v list) option"
  final_err :: "string option"
  calls :: "call list"

text \<open>Modelled from the spec: the methods \<^verbatim>\<open>Columns\<close>, \<^verbatim>\<open>Next\<close> and \<^verbatim>\<open>Err\<close> of
  the cursor. \<^verbatim>\<open>Next\<close> steps onto the next pending row, if there is one.\<close>

definition Columns :: "'v rowsi \<Rightarrow> (error + string list) \<times> 'v rowsi" where
  "Columns rows =
     (case columns_result rows of Inl e \<Rightarrow> Inl (CursorError e) | Inr cs \<Rightarrow> Inr cs,
      rows\<lparr>calls := calls rows @ [Call_Columns]\<rparr>)"

definition Next :: "'v rowsi \<Rightarrow> bool \<times> 'v rowsi" where
  "Next rows =
     (case pending rows of
        [] \<Rightarrow> (False, rows\<lparr>current := None, calls := calls rows @ [Call_Next]\<rparr>)
      | r # rs \<Rightarrow>
          (True, rows\<lparr>pending := rs, current := Some r, calls := calls rows @ [Call_Next]\<rparr>))"

definition Err :: "'v rowsi \<Rightarrow> error option \<times> 'v rowsi" where
  "Err rows = (map_option CursorError (final_err rows), rows\<lparr>calls := calls rows @ [Call_Err]\<rparr>)"

text \<open>
  Modelled from the spec: writing one decoded value through a slot into the instance the
  slots point into ("decodeInto(slots)"). A slot that is not a pointer is refused, as
  \<^verbatim>\<open>database/sql\<close> refuses it.
\<close>

fun assign :: "slot \<Rightarrow> 'v \<Rightarrow> 'v goval \<Rightarrow> error + 'v goval" where
  "assign Discard x inst = Inr inst"
| "assign SelfAddr x inst = Inr (Decoded x)"
| "assign (FieldAddr p) x (StructVal m) = Inr (StructVal (m(p \<mapsto> x)))"
| "assign (FieldAddr p) x inst = Inl (Panic ''field of a value that is not a struct'')"
| "assign NilSlot x inst = Inl (CursorError ''destination not a pointer'')"
| "assign (FieldCopy p) x inst = Inl (CursorError ''destination not a pointer'')"

fun assignAll :: "(slot \<times> 'v) list \<Rightarrow> 'v goval \<Rightarrow> error + 'v goval" where
  "assignAll [] inst = Inr inst"
| "assignAll ((s, x) # rest) inst =
     (case assign s x inst of Inl e \<Rightarrow> Inl e | Inr inst' \<Rightarrow> assignAll rest inst')"

text \<open>
  Modelled from the spec: \<^verbatim>\<open>rows.Scan(slots...)\<close> on the instance the slots point
  into. It gives the error of the current row, an error when the number of slots is
  not the number of values of the row, or the values written through the slots in order.
\<close>

definition Scan :: "'v rowsi \<Rightarrow> slot list \<Rightarrow> 'v goval \<Rightarrow> error option \<times> 'v goval \<times> 'v rowsi" where
  "Scan rows slots inst =
     (let rows' = rows\<lparr>calls := calls rows @ [Call_Scan slots]\<rparr>
      in case current rows of
           None \<Rightarrow> (Some (CursorError ''sql: Scan called without calling Next''), inst, rows')
         | Some (Inl e) \<Rightarrow> (Some (CursorError e), inst, rows')
         | Some (Inr vals) \<Rightarrow>
             if length vals \<noteq> length slots
             then (Some (CursorError ''sql: wrong number of destination arguments in Scan''),
                   inst, rows')
             else (case assignAll (zip slots vals) inst of
                     Inl e \<Rightarrow> (Some e, inst, rows')
                   | Inr inst' \<Rightarrow> (None, inst', rows')))"

section \<open>The reflect helpers of the scan code\<close>

definition baseType :: "gotype \<Rightarrow> kind \<Rightarrow> error + gotype" where
  "baseType t expected =
     (let t' = Deref t
      in if Kind t' \<noteq> expected then Inl (ExpectedButGot expected (Kind t')) else Inr t')"

text \<open>
  \<open>fieldsByTraversal\<close> takes the type of the value \<^verbatim>\<open>v\<close>: it writes into
  \<^verbatim>\<open>values\<close> the addresses of fields of \<^verbatim>\<open>v\<close> (with \<^verbatim>\<open>ptrs\<close> false, copies of
  them), and a field is named by its traversal, \<^verbatim>\<open>reflectx.FieldByIndexes\<close> being
  "the field reached by following the path from the new instance". The Go loop assigns
  \<^verbatim>\<open>values[i]\<close>, which panics when \<^verbatim>\<open>i\<close> is out of range.
\<close>

fun fieldsByTraversal_from :: "nat \<Rightarrow> nat list list \<Rightarrow> slot list \<Rightarrow> bool \<Rightarrow> error + slot list" where
  "fieldsByTraversal_from i [] values ptrs = Inr values"
| "fieldsByTraversal_from i (traversal # rest) values ptrs =
     (if length values \<le> i then Inl (Panic ''index out of range'')
      else if length traversal = 0
        then fieldsByTraversal_from (Suc i) rest (values[i := Discard]) ptrs
      else if ptrs
        then fieldsByTraversal_from (Suc i) rest (values[i := FieldAddr traversal]) ptrs
        else fieldsByTraversal_from (Suc i) rest (values[i := FieldCopy traversal]) ptrs)"

definition fieldsByTraversal :: "gotype \<Rightarrow> nat list list \<Rightarrow> slot list \<Rightarrow> bool \<Rightarrow> error + slot list" where
  "fieldsByTraversal vt traversals values ptrs =
     (if Kind (Deref vt) \<noteq> Struct then Inl ArgNotStruct
      else fieldsByTraversal_from 0 traversals values ptrs)"

fun missingFields_from :: "nat \<Rightarrow> nat list list \<Rightarrow> nat \<times> error option" where
  "missingFields_from i [] = (0, None)"
| "missingFields_from i (t # ts) =
     (if length t = 0 then (i, Some MissingField) else missingFields_from (Suc i) ts)"

definition missingFields :: "nat list list \<Rightarrow> nat \<times> error option" where
  "missingFields transversals = missingFields_from 0 transversals"

definition structOnlyError :: "gotype \<Rightarrow> error" where
  "structOnlyError t =
     (let isStruct = (Kind t = Struct);
          isScanner = ptrImplementsScanner t
      in if \<not> isStruct then ExpectedButGot Struct (Kind t)
         else if isScanner then ImplementsScanner (Name t)
         else NoExportedFields (Name t))"

section \<open>scanAll\<close>

text \<open>
  The destination \<^verbatim>\<open>dest interface{}\<close>: a value whose kind is not \<^verbatim>\<open>Ptr\<close> (the nil
  interface among them), a nil pointer of type \<^verbatim>\<open>*t\<close>, or a pointer to a variable of
  type \<^verbatim>\<open>t\<close>. When \<^verbatim>\<open>t\<close> is a slice type the list holds the elements of the slice
  the pointer points to.
\<close>

datatype 'v dest = NotPointer | NilPointer gotype | Pointer gotype "'v goval list"

text \<open>\<^verbatim>\<open>t.Elem()\<close>, which panics on a type without an element type.\<close>

fun Elem :: "gotype \<Rightarrow> gotype option" where
  "Elem (PtrT t) = Some t"
| "Elem (SliceT n s t) = Some t"
| "Elem t = None"

text \<open>
  The two row loops. Each returns the error it stopped with, if any, the elements of the
  destination slice, and the cursor. The row buffer \<^verbatim>\<open>values\<close> is reused from row
  to row.
\<close>

function structLoop ::
  "gotype \<Rightarrow> nat list list \<Rightarrow> bool \<Rightarrow> slot list \<Rightarrow> 'v goval list \<Rightarrow> 'v rowsi
     \<Rightarrow> error option \<times> 'v goval list \<times> 'v rowsi" where
  "structLoop base flds isPtr values direct rows =
     (case Next rows of
        (False, rows1) \<Rightarrow> (None, direct, rows1)
      | (True, rows1) \<Rightarrow>
          (case fieldsByTraversal base flds values True of
             Inl e \<Rightarrow> (Some e, direct, rows1)
           | Inr values1 \<Rightarrow>
               (case Scan rows1 values1 (New base) of
                  (Some e, v, rows2) \<Rightarrow> (Some e, direct, rows2)
                | (None, v, rows2) \<Rightarrow>
                    structLoop base flds isPtr values1
                      (direct @ [if isPtr then PtrVal v else v]) rows2)))"
  by pat_completeness auto
termination
  by (relation "measure (\<lambda>(base, flds, isPtr, values, direct, rows). length (pending rows))")
     (auto simp: Next_def Scan_def Let_def split: list.splits option.splits sum.splits if_splits)

function scalarLoop ::
  "gotype \<Rightarrow> bool \<Rightarrow> 'v goval list \<Rightarrow> 'v rowsi \<Rightarrow> error option \<times> 'v goval list \<times> 'v rowsi" where
  "scalarLoop base isPtr direct rows =
     (case Next rows of
        (False, rows1) \<Rightarrow> (None, direct, rows1)
      | (True, rows1) \<Rightarrow>
          (case Scan rows1 [SelfAddr] (New base) of
             (Some e, vp, rows2) \<Rightarrow> (Some e, direct, rows2)
           | (None, vp, rows2) \<Rightarrow>
               scalarLoop base isPtr (direct @ [if isPtr then PtrVal vp else vp]) rows2))"
  by pat_completeness auto
termination
  by (relation "measure (\<lambda>(base, isPtr, direct, rows). length (pending rows))")
     (auto simp: Next_def Scan_def Let_def split: list.splits option.splits sum.splits if_splits)

declare structLoop.simps [simp del] scalarLoop.simps [simp del]

text \<open>
  The mapper of the composite path: the type switch on \<^verbatim>\<open>rows\<close>, which takes the
  \<^verbatim>\<open>Mapper\<close> field of a \<^verbatim>\<open>*Rows\<close> and the process-wide mapper for anything else.
\<close>

definition rowsMapper :: "'v rowsi \<Rightarrow> globals \<Rightarrow> Mapper \<times> globals" where
  "rowsMapper rows g = (case dyn rows of PtrRows w \<Rightarrow> (Mapper w, g) | _ \<Rightarrow> mapper g)"

text \<open>The end of scanAll: an error of the loop is returned, otherwise \<^verbatim>\<open>rows.Err()\<close>.\<close>

definition finish ::
  "gotype \<Rightarrow> globals \<Rightarrow> error option \<times> 'v goval list \<times> 'v rowsi
     \<Rightarrow> error option \<times> 'v dest \<times> 'v rowsi \<times> globals" where
  "finish t g r =
     (case r of
        (Some e, direct, rows) \<Rightarrow> (Some e, Pointer t direct, rows, g)
      | (None, direct, rows) \<Rightarrow>
          (case Err rows of (e, rows') \<Rightarrow> (e, Pointer t direct, rows', g)))"

text \<open>
  scanAll returns its error, and the model returns with it what the call has changed:
  the destination, the cursor and the package variables.
\<close>

definition scanAll ::
  "'v rowsi \<Rightarrow> 'v dest \<Rightarrow> bool \<Rightarrow> globals \<Rightarrow> error option \<times> 'v dest \<times> 'v rowsi \<times> globals" where
  "scanAll rows dest structOnly g =
     (case dest of
        NotPointer \<Rightarrow> (Some MustPassPointer, dest, rows, g)
      | NilPointer t \<Rightarrow> (Some NilPointerPassed, dest, rows, g)
      | Pointer t direct \<Rightarrow>
          (case baseType (PtrT t) Slice of
             Inl e \<Rightarrow> (Some e, dest, rows, g)
           | Inr slice \<Rightarrow>
               (case Elem slice of
                  None \<Rightarrow> (Some (Panic ''reflect: Elem of invalid type''), dest, rows, g)
                | Some el \<Rightarrow>
                    (let isPtr = (Kind el = Ptr);
                         base = Deref el;
                         (scannable, g1) = isScannable g base
                     in if structOnly \<and> scannable
                        then (Some (structOnlyError base), dest, rows, g1)
                        else
                          (case Columns rows of
                             (Inl e, rows1) \<Rightarrow> (Some e, dest, rows1, g1)
                           | (Inr columns, rows1) \<Rightarrow>
                               if scannable \<and> length columns > 1
                               then (Some (NonStructDest (Kind base) (length columns)),
                                     dest, rows1, g1)
                               else if \<not> scannable
                               then
                                 (let (m, g2) = rowsMapper rows1 g1;
                                      flds = TraversalsByName m base columns;
                                      (f, err) = missingFields flds
                                  in if err \<noteq> None \<and> \<not> isUnsafe (dyn rows1)
                                     then
                                       (if f < length columns
                                        then (Some (MissingDestName (columns ! f) (PtrT t)),
                                              dest, rows1, g2)
                                        else (Some (Panic ''index out of range''),
                                              dest, rows1, g2))
                                     else
                                       (let values = replicate (length columns) NilSlot
                                        in finish t g2
                                             (structLoop base flds isPtr values direct rows1)))
                               else finish t g1 (scalarLoop base isPtr direct rows1))))))"

section \<open>The statement wrapper (stmt.go)\<close>

text \<open>
  An argument of a query, an \<^verbatim>\<open>interface{}\<close>: a plain value, or a
  \<^verbatim>\<open>[]interface{}\<close> of arguments.
\<close>

datatype 'a arg = Arg 'a | SliceArg "'a arg list"

text \<open>
  The wrapped \<^verbatim>\<open>*sqlk.Stmt\<close>, a statement of the kratos library: what it answers to
  \<^verbatim>\<open>Exec\<close> and to \<^verbatim>\<open>Query\<close> for the arguments it is called with (a result or a
  cursor, and an error), and the argument lists it has received so far. Its methods are
  variadic: the list is the arguments as the callee sees them.
\<close>

record ('a, 'r, 'q) sqlk_Stmt =
  exec_answer :: "'a arg list \<Rightarrow> 'r \<times> string option"
  query_answer :: "'a arg list \<Rightarrow> 'q \<times> string option"
  received :: "'a arg list list"

definition sqlk_Exec ::
  "('a, 'r, 'q) sqlk_Stmt \<Rightarrow> 'c \<Rightarrow> 'a arg list \<Rightarrow> ('r \<times> string option) \<times> ('a, 'r, 'q) sqlk_Stmt" where
  "sqlk_Exec k c args = (exec_answer k args, k\<lparr>received := received k @ [args]\<rparr>)"

definition sqlk_Query ::
  "('a, 'r, 'q) sqlk_Stmt \<Rightarrow> 'c \<Rightarrow> 'a arg list \<Rightarrow> ('q \<times> string option) \<times> ('a, 'r, 'q) sqlk_Stmt" where
  "sqlk_Query k c args = (query_answer k args, k\<lparr>received := received k @ [args]\<rparr>)"

text \<open>
  \<^verbatim>\<open>Stmt\<close>, \<^verbatim>\<open>Rows\<close> and \<^verbatim>\<open>Row\<close>: the \<^verbatim>\<open>unsafe\<close> flag and the \<^verbatim>\<open>Mapper\<close>,
  around the embedded statement or cursor.
\<close>

record ('a, 'r, 'q) sqlx_Stmt = wrapper +
  Stmt_embedded :: "('a, 'r, 'q) sqlk_Stmt"

record 'q sqlx_Rows = wrapper +
  Rows_embedded :: 'q

record 'q sqlx_Row = wrapper +
  Row_embedded :: 'q
  Row_err :: "string option"

text \<open>
  The three methods hand their variadic parameter \<^verbatim>\<open>args\<close> to the embedded
  statement as it is (\<^verbatim>\<open>s.Stmt.Exec(c, args)\<close>, without \<^verbatim>\<open>...\<close>): the callee is
  called with one argument, the slice. Each returns its results and the statement, whose
  embedded statement has taken the call.
\<close>

definition Stmt_Exec ::
  "('a, 'r, 'q) sqlx_Stmt \<Rightarrow> 'c \<Rightarrow> 'a arg list \<Rightarrow> ('r \<times> string option) \<times> ('a, 'r, 'q) sqlx_Stmt" where
  "Stmt_Exec s c args =
     (case sqlk_Exec (Stmt_embedded s) c [SliceArg args] of
        (out, k) \<Rightarrow> (out, s\<lparr>Stmt_embedded := k\<rparr>))"

definition Stmt_Query ::
  "('a, 'r, 'q) sqlx_Stmt \<Rightarrow> 'c \<Rightarrow> 'a arg list
     \<Rightarrow> ('q sqlx_Rows option \<times> string option) \<times> ('a, 'r, 'q) sqlx_Stmt" where
  "Stmt_Query s c args =
     (case sqlk_Query (Stmt_embedded s) c [SliceArg args] of
        ((rs, err), k) \<Rightarrow>
          if err \<noteq> None then ((None, err), s\<lparr>Stmt_embedded := k\<rparr>)
          else ((Some \<lparr>unsafe = unsafe s, Mapper = Mapper s, Rows_embedded = rs\<rparr>, err),
                s\<lparr>Stmt_embedded := k\<rparr>))"

definition Stmt_QueryRow ::
  "('a, 'r, 'q) sqlx_Stmt \<Rightarrow> 'c \<Rightarrow> 'a arg list \<Rightarrow> 'q sqlx_Row \<times> ('a, 'r, 'q) sqlx_Stmt" where
  "Stmt_QueryRow s c args =
     (case sqlk_Query (Stmt_embedded s) c [SliceArg args] of
        ((r, err), k) \<Rightarrow>
          (\<lparr>unsafe = unsafe s, Mapper = Mapper s, Row_embedded = r, Row_err = err\<rparr>,
           s\<lparr>Stmt_embedded := k\<rparr>))"

section \<open>Auxiliary notions for the statements\<close>

text \<open>A type with every pointer level taken off.\<close>

fun derefAll :: "gotype \<Rightarrow> gotype" where
  "derefAll (PtrT t) = derefAll t"
| "derefAll t = t"

text \<open>
  The errors that come up once the row loop runs: an error of the cursor, the error of
  \<open>fieldsByTraversal\<close>, or a panic.
\<close>

fun rowLevel :: "error \<Rightarrow> bool" where
  "rowLevel (CursorError m) = True"
| "rowLevel (Panic m) = True"
| "rowLevel ArgNotStruct = True"
| "rowLevel _ = False"

text \<open>The row buffer that \<open>fieldsByTraversal\<close> leaves for the traversals \<open>flds\<close>.\<close>

definition slotsOf :: "nat list list \<Rightarrow> slot list" where
  "slotsOf flds = map (\<lambda>tr. if length tr = 0 then Discard else FieldAddr tr) flds"

text \<open>
  The fields of an instance after the values of one row have been written through the
  slots of \<open>flds\<close>, column by column: a column with the empty traversal writes nothing.
\<close>

fun fillFields :: "nat list list \<Rightarrow> 'v list \<Rightarrow> (nat list \<Rightarrow> 'v option) \<Rightarrow> (nat list \<Rightarrow> 'v option)" where
  "fillFields (tr # trs) (x # xs) m = fillFields trs xs (if length tr = 0 then m else m(tr \<mapsto> x))"
| "fillFields trs xs m = m"

text \<open>The element appended for a decoded row: the instance, or a pointer to it.\<close>

definition structElem :: "bool \<Rightarrow> nat list list \<Rightarrow> 'v list \<Rightarrow> 'v goval" where
  "structElem isPtr flds vals =
     (if isPtr then PtrVal (StructVal (fillFields flds vals Map.empty))
      else StructVal (fillFields flds vals Map.empty))"

definition scalarElem :: "bool \<Rightarrow> 'v \<Rightarrow> 'v goval" where
  "scalarElem isPtr x = (if isPtr then PtrVal (Decoded x) else Decoded x)"

text \<open>Whether decoding a row into \<open>n\<close> slots fails, and with which error.\<close>

fun rowFails :: "nat \<Rightarrow> string + 'v list \<Rightarrow> error option" where
  "rowFails n (Inl e) = Some (CursorError e)"
| "rowFails n (Inr vals) =
     (if length vals \<noteq> n
      then Some (CursorError ''sql: wrong number of destination arguments in Scan'')
      else None)"

text \<open>Whether the structure map of \<open>t\<close> under the mapper \<open>m\<close> has a field for a column.\<close>

definition hasField :: "Mapper \<Rightarrow> gotype \<Rightarrow> string \<Rightarrow> bool" where
  "hasField m t c = (map_of (TypeMapIndex m t) c \<noteq> None)"

text \<open>The calls a cursor records for \<open>k\<close> rows that are stepped onto and decoded.\<close>

definition rowCalls :: "slot list \<Rightarrow> nat \<Rightarrow> call list" where
  "rowCalls slots k = concat (replicate k [Call_Next, Call_Scan slots])"

text \<open>The field of an element at a traversal path, when the scan has written it.\<close>

fun fieldOf :: "'v goval \<Rightarrow> nat list \<Rightarrow> 'v option" where
  "fieldOf (StructVal m) p = m p"
| "fieldOf (PtrVal v) p = fieldOf v p"
| "fieldOf v p = None"

section \<open>Example values\<close>

text \<open>
  \<^verbatim>\<open>strings.ToLower\<close> on ASCII letters, which is all the examples contain (the Go
  function also lower-cases letters outside ASCII).
\<close>

definition ascii_lower :: "string \<Rightarrow> string" where
  "ascii_lower s =
     map (\<lambda>c. case map_of (zip ''ABCDEFGHIJKLMNOPQRSTUVWXYZ'' ''abcdefghijklmnopqrstuvwxyz'') c of
                None \<Rightarrow> c | Some d \<Rightarrow> d) s"

definition ex_ToLower :: namefn where
  "ex_ToLower = \<lparr>fn_id = 0, fn_apply = ascii_lower\<rparr>"

definition ex_globals :: globals where
  "ex_globals = init_globals ex_ToLower"

definition ex_int :: gotype where
  "ex_int = Basic Int' ''int'' False"

definition ex_string :: gotype where
  "ex_string = Basic String ''string'' False"

text \<open>\<^verbatim>\<open>type Person struct { ID int; Name string }\<close>\<close>

definition ex_Person :: gotype where
  "ex_Person = StructT ''Person'' False
     [(\<lparr>fname = ''ID'', exported = True, embedded = False, ignored = False\<rparr>, ex_int),
      (\<lparr>fname = ''Name'', exported = True, embedded = False, ignored = False\<rparr>, ex_string)]"

text \<open>A cursor of a type of its own (not one of the wrappers), with the given columns,
  rows and end-of-iteration error, on which nothing has been called yet.\<close>

definition ex_rows :: "string list \<Rightarrow> (string + string list) list \<Rightarrow> string option \<Rightarrow> string rowsi" where
  "ex_rows cs rs e =
     \<lparr>dyn = OtherType, columns_result = Inr cs, pending = rs, current = None,
      final_err = e, calls = []\<rparr>"

text \<open>A lenient cursor: a \<^verbatim>\<open>*Rows\<close> whose \<^verbatim>\<open>unsafe\<close> flag is set.\<close>

definition ex_lenient_rows :: "string list \<Rightarrow> (string + string list) list \<Rightarrow> string option \<Rightarrow> string rowsi" where
  "ex_lenient_rows cs rs e =
     \<lparr>dyn = PtrRows \<lparr>unsafe = True, Mapper = NewMapperFunc ''db'' ex_ToLower\<rparr>,
      columns_result = Inr cs, pending = rs, current = None, final_err = e, calls = []\<rparr>"

text \<open>A statement whose embedded statement answers with the number of arguments it
  was called with.\<close>

definition ex_stmt :: "(nat, nat, nat) sqlx_Stmt" where
  "ex_stmt =
     \<lparr>unsafe = False, Mapper = NewMapperFunc ''db'' ex_ToLower,
      Stmt_embedded =
        \<lparr>exec_answer = (\<lambda>args. (length args, None)),
         query_answer = (\<lambda>args. (length args, None)),
         received = []\<rparr>\<rparr>"

section \<open>The classifier (C2)\<close>

text \<open>The number of entries of a structure map does not depend on the normaliser.\<close>

lemma entries_length:
  "length (fieldEntries f i fs) = length (fieldEntries f' i' fs)"
  "length (structEntries f t) = length (structEntries f' t)"
  by (induction f i fs and f t arbitrary: i' and rule: fieldEntries_structEntries.induct) auto

lemma TypeMapIndex_length: "length (TypeMapIndex m t) = length (TypeMapIndex m' t)"
  unfolding TypeMapIndex_def by (rule entries_length(2))

text \<open>
  C2. For every element type \<open>t\<close>, \<open>isScannable\<close> answers true exactly when
  \<^verbatim>\<open>*t\<close> implements \<^verbatim>\<open>sql.Scanner\<close>, or \<open>t\<close> is not a struct, or \<open>t\<close> is a struct
  whose structure map has no entry (under any mapper \<open>m\<close>: the count does not depend on
  the normaliser). The rules are tried in this order: when one of the first two
  applies, the mapper is not consulted and the package variables are left as they were.
  In particular a struct type that implements the decode capability is scalar-like and
  so never field-mapped.
\<close>

theorem isScannable_rules:
  "fst (isScannable g t) =
     (ptrImplementsScanner t \<or> Kind t \<noteq> Struct
      \<or> (Kind t = Struct \<and> length (TypeMapIndex m t) = 0))
   \<and> (ptrImplementsScanner t \<or> Kind t \<noteq> Struct \<longrightarrow> snd (isScannable g t) = g)
   \<and> (Kind t = Struct \<and> ptrImplementsScanner t \<longrightarrow> fst (isScannable g t))"
  using TypeMapIndex_length[of m t "fst (mapper g)"]
  by (auto simp: isScannable_def Let_def split: prod.splits)

theorem isScannable_rules_witness:
  "Kind (StructT ''NullTime'' True
          [(\<lparr>fname = ''Time'', exported = True, embedded = False, ignored = False\<rparr>,
            Basic Int64 ''int64'' False)]) = Struct
   \<and> fst (isScannable (ex_globals)
          (StructT ''NullTime'' True
            [(\<lparr>fname = ''Time'', exported = True, embedded = False, ignored = False\<rparr>,
              Basic Int64 ''int64'' False)]))
   \<and> snd (isScannable (ex_globals)
          (StructT ''NullTime'' True
            [(\<lparr>fname = ''Time'', exported = True, embedded = False, ignored = False\<rparr>,
              Basic Int64 ''int64'' False)]))
       = ex_globals"
  using isScannable_rules[of "ex_globals"
      "StructT ''NullTime'' True
          [(\<lparr>fname = ''Time'', exported = True, embedded = False, ignored = False\<rparr>,
            Basic Int64 ''int64'' False)]"
      "NewMapperFunc ''db'' ex_ToLower"]
  by simp

section \<open>Destinations that are refused (C5)\<close>

lemma derefAll_not_Slice: "Kind (derefAll t) \<noteq> Slice \<Longrightarrow> Kind t \<noteq> Slice"
  by (cases t) auto

text \<open>
  C5. scanAll fails with an error of kind InvalidDestination whenever the destination
  is not a pointer, is a nil pointer, or is a pointer to a type that does not come down,
  through any number of pointer levels, to a slice type.
\<close>

theorem scanAll_InvalidDestination:
  assumes "dest = NotPointer \<or> (\<exists>t. dest = NilPointer t)
           \<or> (\<exists>t direct. dest = Pointer t direct \<and> Kind (derefAll t) \<noteq> Slice)"
  shows "\<exists>e. fst (scanAll rows dest structOnly g) = Some e \<and> InvalidDestination e"
  using assms derefAll_not_Slice
  by (auto simp: scanAll_def baseType_def Let_def)

theorem scanAll_InvalidDestination_witness:
  "Kind (derefAll (PtrT ex_int)) \<noteq> Slice
   \<and> (\<exists>e. fst (scanAll (ex_rows [''id''] [Inr [''1'']] None) (Pointer (PtrT ex_int) []) False ex_globals)
            = Some e \<and> InvalidDestination e)
   \<and> (\<exists>e. fst (scanAll (ex_rows [''id''] [Inr [''1'']] None) (NilPointer (SliceT [] False ex_int)) False ex_globals)
            = Some e \<and> InvalidDestination e)
   \<and> (\<exists>e. fst (scanAll (ex_rows [''id''] [Inr [''1'']] None) NotPointer False ex_globals)
            = Some e \<and> InvalidDestination e)"
  using scanAll_InvalidDestination[of "Pointer (PtrT ex_int) []"
          "ex_rows [''id''] [Inr [''1'']] None" False ex_globals]
        scanAll_InvalidDestination[of "NilPointer (SliceT [] False ex_int)"
          "ex_rows [''id''] [Inr [''1'']] None" False ex_globals]
        scanAll_InvalidDestination[of NotPointer
          "ex_rows [''id''] [Inr [''1'']] None" False ex_globals]
  by (simp add: ex_int_def)

section \<open>Errors raised before the cursor is touched (C6, C10)\<close>

lemma assignAll_error:
  "assignAll zs inst = Inl e \<Longrightarrow> rowLevel e"
proof (induction zs arbitrary: inst)
  case Nil
  then show ?case by simp
next
  case (Cons z zs)
  obtain s x where z: "z = (s, x)" by (cases z)
  show ?case
  proof (cases "assign s x inst")
    case (Inl e')
    then have "e' = e" using Cons.prems z by simp
    then show ?thesis using Inl by (cases s; cases inst) auto
  next
    case (Inr inst')
    then show ?thesis using Cons z by simp
  qed
qed

lemma Scan_error: "Scan rows slots inst = (Some e, v, rows') \<Longrightarrow> rowLevel e"
  by (auto simp: Scan_def Let_def split: option.splits sum.splits if_splits
           dest: assignAll_error)

lemma fieldsByTraversal_from_error:
  "fieldsByTraversal_from i trs vals ptrs = Inl e \<Longrightarrow> rowLevel e"
  by (induction i trs vals ptrs rule: fieldsByTraversal_from.induct)
     (auto split: if_splits)

lemma fieldsByTraversal_error:
  "fieldsByTraversal vt trs vals ptrs = Inl e \<Longrightarrow> rowLevel e"
  by (auto simp: fieldsByTraversal_def split: if_splits dest: fieldsByTraversal_from_error)

lemma structLoop_error:
  "structLoop base flds isPtr vals direct rows = (Some e, d, r) \<Longrightarrow> rowLevel e"
proof (induction base flds isPtr vals direct rows rule: structLoop.induct)
  case (1 base flds isPtr vals direct rows)
  show ?case
    using "1.prems" "1.IH"
    by (subst (asm) structLoop.simps)
       (auto split: prod.splits bool.splits sum.splits option.splits
             dest: Scan_error fieldsByTraversal_error)
qed

lemma scalarLoop_error:
  "scalarLoop base isPtr direct rows = (Some e, d, r) \<Longrightarrow> rowLevel e"
proof (induction base isPtr direct rows rule: scalarLoop.induct)
  case (1 base isPtr direct rows)
  show ?case
    using "1.prems" "1.IH"
    by (subst (asm) scalarLoop.simps)
       (auto split: prod.splits bool.splits sum.splits option.splits
             dest: Scan_error)
qed

lemma finish_structLoop_error:
  "finish t g (structLoop base flds isPtr vals direct rows) = (Some e, dest', rows', g')
   \<Longrightarrow> rowLevel e"
  by (cases "structLoop base flds isPtr vals direct rows")
     (auto simp: finish_def Err_def split: option.splits dest: structLoop_error)

lemma finish_scalarLoop_error:
  "finish t g (scalarLoop base isPtr direct rows) = (Some e, dest', rows', g')
   \<Longrightarrow> rowLevel e"
  by (cases "scalarLoop base isPtr direct rows")
     (auto simp: finish_def Err_def split: option.splits dest: scalarLoop_error)

lemma rowLevel_kinds: "rowLevel e \<Longrightarrow> \<not> InvalidDestination e \<and> \<not> StructOnlyViolation e"
  by (cases e) auto

text \<open>
  C10. Whenever scanAll returns an error of kind InvalidDestination or
  StructOnlyViolation, the cursor is exactly as it was (no call of Columns, Next, Scan
  or Err has been recorded, no row has been taken) and the destination is unchanged.
\<close>

theorem scanAll_early_errors_touch_nothing:
  assumes "scanAll rows dest structOnly g = (Some e, dest', rows', g')"
    and "InvalidDestination e \<or> StructOnlyViolation e"
  shows "rows' = rows \<and> dest' = dest"
proof (cases dest)
  case NotPointer
  then show ?thesis using assms(1) by (simp add: scanAll_def)
next
  case (NilPointer t)
  then show ?thesis using assms(1) by (simp add: scanAll_def)
next
  case (Pointer t direct)
  show ?thesis
  proof (cases "baseType (PtrT t) Slice")
    case (Inl e0)
    then show ?thesis using assms(1) Pointer by (simp add: scanAll_def)
  next
    case (Inr slice)
    show ?thesis
    proof (cases "Elem slice")
      case None
      then show ?thesis using assms(1) Pointer Inr by (simp add: scanAll_def)
    next
      case (Some el)
      obtain scannable g1 where sc: "isScannable g (Deref el) = (scannable, g1)"
        by (cases "isScannable g (Deref el)")
      show ?thesis
      proof (cases "structOnly \<and> scannable")
        case True
        then show ?thesis using assms(1) Pointer Inr Some sc by (simp add: scanAll_def)
      next
        case False
        obtain cr rows1 where cols: "Columns rows = (cr, rows1)" by (cases "Columns rows")
        have "rowLevel e \<or> ShapeMismatch e \<or> (\<exists>c ty. e = MissingDestName c ty)"
          using assms(1) Pointer Inr Some sc False cols
          by (auto simp: scanAll_def Let_def Columns_def
                   split: sum.splits if_splits prod.splits
                   dest: finish_structLoop_error finish_scalarLoop_error)
        then have False using assms(2) rowLevel_kinds[of e] by (cases e) auto
        then show ?thesis ..
      qed
    qed
  qed
qed

theorem scanAll_early_errors_touch_nothing_witness:
  "scanAll (ex_rows [''id''] [Inr [''1'']] None) (Pointer (SliceT [] False ex_int) []) True ex_globals
     = (Some (ExpectedButGot Struct (Other Int')), Pointer (SliceT [] False ex_int) [],
        ex_rows [''id''] [Inr [''1'']] None, ex_globals)
   \<and> StructOnlyViolation (ExpectedButGot Struct (Other Int'))"
  using scanAll_early_errors_touch_nothing[of "ex_rows [''id''] [Inr [''1'']] None"
      "Pointer (SliceT [] False ex_int) []" True ex_globals
      "ExpectedButGot Struct (Other Int')"
      "fst (snd (scanAll (ex_rows [''id''] [Inr [''1'']] None)
                   (Pointer (SliceT [] False ex_int) []) True ex_globals))"
      "fst (snd (snd (scanAll (ex_rows [''id''] [Inr [''1'']] None)
                   (Pointer (SliceT [] False ex_int) []) True ex_globals)))"
      "snd (snd (snd (scanAll (ex_rows [''id''] [Inr [''1'']] None)
                   (Pointer (SliceT [] False ex_int) []) True ex_globals)))"]
  by (simp add: scanAll_def baseType_def isScannable_def structOnlyError_def ex_int_def)

text \<open>
  C6. When the destination is a pointer to a slice, the element type is scalar-like and
  structOnly is true, scanAll returns the error of \<open>structOnlyError\<close>, of kind
  StructOnlyViolation, with the cursor as it was (no row consumed) and the destination
  unchanged. The error is one of three: for an element type that is not a struct,
  "expected struct but got (its kind)"; for a struct whose pointer implements the
  scanner, the message that says so; for any other struct, whose structure map then has
  no entry, "has no exported fields". The three messages differ from one another.
\<close>

theorem scanAll_structOnly:
  assumes "dest = Pointer (SliceT n s el) direct"
    and "fst (isScannable g (Deref el))"
  shows "scanAll rows dest True g
           = (Some (structOnlyError (Deref el)), dest, rows, snd (isScannable g (Deref el)))
    \<and> StructOnlyViolation (structOnlyError (Deref el))
    \<and> (Kind (Deref el) \<noteq> Struct \<longrightarrow>
          structOnlyError (Deref el) = ExpectedButGot Struct (Kind (Deref el)))
    \<and> (Kind (Deref el) = Struct \<and> ptrImplementsScanner (Deref el) \<longrightarrow>
          structOnlyError (Deref el) = ImplementsScanner (Name (Deref el)))
    \<and> (Kind (Deref el) = Struct \<and> \<not> ptrImplementsScanner (Deref el) \<longrightarrow>
          structOnlyError (Deref el) = NoExportedFields (Name (Deref el))
          \<and> TypeMapIndex m (Deref el) = [])
    \<and> errorFormat (ExpectedButGot Struct k) \<noteq> errorFormat (ImplementsScanner a)
    \<and> errorFormat (ExpectedButGot Struct k) \<noteq> errorFormat (NoExportedFields b)
    \<and> errorFormat (ImplementsScanner a) \<noteq> errorFormat (NoExportedFields b)"
proof -
  obtain g1 where sc: "isScannable g (Deref el) = (True, g1)"
    using assms(2) by (cases "isScannable g (Deref el)") auto
  have 1: "scanAll rows dest True g
           = (Some (structOnlyError (Deref el)), dest, rows, snd (isScannable g (Deref el)))"
    using assms(1) sc by (simp add: scanAll_def baseType_def)
  have 2: "StructOnlyViolation (structOnlyError (Deref el))"
    by (simp add: structOnlyError_def Let_def)
  have 3: "Kind (Deref el) = Struct \<and> \<not> ptrImplementsScanner (Deref el)
           \<longrightarrow> TypeMapIndex m (Deref el) = []"
    using assms(2) TypeMapIndex_length[of m "Deref el" "fst (mapper g)"]
    by (auto simp: isScannable_def Let_def split: prod.splits if_splits)
  show ?thesis using 1 2 3 by (simp add: structOnlyError_def Let_def)
qed

theorem scanAll_structOnly_witness:
  "fst (isScannable ex_globals (Deref (PtrT (StructT ''Empty'' False []))))
   \<and> scanAll (ex_rows [''id''] [Inr [''1'']] None)
       (Pointer (SliceT [] False (PtrT (StructT ''Empty'' False []))) []) True ex_globals
     = (Some (NoExportedFields ''Empty''),
        Pointer (SliceT [] False (PtrT (StructT ''Empty'' False []))) [],
        ex_rows [''id''] [Inr [''1'']] None,
        snd (isScannable ex_globals (StructT ''Empty'' False [])))
   \<and> TypeMapIndex (NewMapperFunc ''db'' ex_ToLower) (StructT ''Empty'' False []) = []"
  using scanAll_structOnly[of "Pointer (SliceT [] False (PtrT (StructT ''Empty'' False []))) []"
      "[]" False "PtrT (StructT ''Empty'' False [])" "[]" ex_globals
      "ex_rows [''id''] [Inr [''1'']] None" "NewMapperFunc ''db'' ex_ToLower"
      "Other Int'" "''A''" "''B''"]
  by (simp add: isScannable_def mapper_def TypeMapIndex_def structOnlyError_def Let_def
           split: prod.splits)

section \<open>The process-wide mapper after a replacement (C8)\<close>

text \<open>
  Where the detection works: once \<^verbatim>\<open>mpr\<close> is set and \<^verbatim>\<open>origMapper\<close> is the identity
  of the installed function, a replacement by a different function makes the next call
  build a mapper from the new one.
\<close>

lemma mapper_detects_when_in_sync:
  assumes "mpr g = Some m0" and "origMapper g = fn_id (NameMapper g)"
    and "fn_id f \<noteq> fn_id (NameMapper g)"
  shows "fst (mapper (set_NameMapper f g)) = NewMapperFunc ''db'' f"
  using assms by (simp add: mapper_def set_NameMapper_def Let_def)

text \<open>
  C8, evaluated where it fails. Start-up state; \<^verbatim>\<open>NameMapper\<close> is set to another
  function \<open>f1\<close> before the first use; \<open>mapper()\<close> is called once (it builds the mapper
  from \<open>f1\<close> and leaves \<^verbatim>\<open>origMapper\<close> at \<^verbatim>\<open>strings.ToLower\<close>); \<^verbatim>\<open>NameMapper\<close> is
  replaced by \<^verbatim>\<open>strings.ToLower\<close>; the next call of \<open>mapper()\<close> compares
  \<^verbatim>\<open>origMapper\<close> with the installed function, finds them equal, and returns the
  mapper built from \<open>f1\<close>, which is not the installed normaliser.
\<close>

theorem mapper_keeps_stale_mapper:
  "(let toLower = \<lparr>fn_id = 0, fn_apply = lower\<rparr>;
        f1 = \<lparr>fn_id = 1, fn_apply = other\<rparr>;
        g1 = set_NameMapper f1 (init_globals toLower);
        (m1, g2) = mapper g1;
        g3 = set_NameMapper toLower g2;
        (m2, g4) = mapper g3
    in m1 = NewMapperFunc ''db'' f1 \<and> m2 = NewMapperFunc ''db'' f1
       \<and> NameMapper g4 = toLower
       \<and> fn_id (mapFunc m2) \<noteq> fn_id (NameMapper g4))"
  by (simp add: mapper_def set_NameMapper_def init_globals_def NewMapperFunc_def Let_def)

section \<open>The row loops\<close>

text \<open>
  What the two loops compute: on a cursor whose next rows decode, each loop appends one
  element per row and goes on with the rows left; it stops at the first row whose decode
  fails, or at the end of the rows.
\<close>

lemma fieldsByTraversal_from_slots:
  "length vals = i + length trs \<Longrightarrow>
   fieldsByTraversal_from i trs vals True = Inr (take i vals @ slotsOf trs)"
proof (induction trs arbitrary: i vals)
  case Nil
  then show ?case by (simp add: slotsOf_def)
next
  case (Cons tr trs)
  have i: "i < length vals" using Cons.prems by simp
  have step: "\<And>x. fieldsByTraversal_from (Suc i) trs (vals[i := x]) True
                 = Inr (take i vals @ x # slotsOf trs)"
  proof -
    fix x
    have "length (vals[i := x]) = Suc i + length trs" using Cons.prems by simp
    from Cons.IH[OF this]
    show "fieldsByTraversal_from (Suc i) trs (vals[i := x]) True
                 = Inr (take i vals @ x # slotsOf trs)"
      using i by (simp add: take_Suc_conv_app_nth)
  qed
  show ?case using i step by (simp add: slotsOf_def)
qed

lemma fieldsByTraversal_slots:
  assumes "Kind base = Struct" and "length vals = length flds"
  shows "fieldsByTraversal base flds vals True = Inr (slotsOf flds)"
proof -
  have "Deref base = base" using assms(1) by (cases base) auto
  then show ?thesis
    using assms fieldsByTraversal_from_slots[of vals 0 flds]
    by (simp add: fieldsByTraversal_def)
qed

lemma assignAll_fill:
  "length vals = length flds \<Longrightarrow>
   assignAll (zip (slotsOf flds) vals) (StructVal m) = Inr (StructVal (fillFields flds vals m))"
proof (induction flds arbitrary: vals m)
  case Nil
  then show ?case by (simp add: slotsOf_def)
next
  case (Cons tr trs)
  then obtain x xs where v: "vals = x # xs" and l: "length xs = length trs"
    by (cases vals) auto
  show ?case using Cons.IH[OF l] v by (simp add: slotsOf_def fun_upd_def)
qed

lemma length_slotsOf [simp]: "length (slotsOf flds) = length flds"
  by (simp add: slotsOf_def)

lemma Scan_struct_good:
  assumes "current rows = Some (Inr vals)" and "length vals = length flds"
  shows "Scan rows (slotsOf flds) (StructVal m)
         = (None, StructVal (fillFields flds vals m),
            rows\<lparr>calls := calls rows @ [Call_Scan (slotsOf flds)]\<rparr>)"
  using assms by (simp add: Scan_def Let_def assignAll_fill)

lemma Scan_bad:
  assumes "current rows = Some r" and "rowFails (length slots) r = Some e"
  shows "Scan rows slots inst = (Some e, inst, rows\<lparr>calls := calls rows @ [Call_Scan slots]\<rparr>)"
  using assms by (cases r) (auto simp: Scan_def Let_def split: if_splits)

lemma rowCalls_Suc: "rowCalls slots (Suc k) = [Call_Next, Call_Scan slots] @ rowCalls slots k"
  by (simp add: rowCalls_def)

lemma structLoop_prefix:
  assumes "Kind base = Struct"
    and "length vals0 = length flds"
    and "pending rows = map Inr goods @ rest"
    and "\<forall>v\<in>set goods. length v = length flds"
  shows "\<exists>vals1. length vals1 = length flds \<and>
     structLoop base flds isPtr vals0 direct rows
     = structLoop base flds isPtr vals1 (direct @ map (structElem isPtr flds) goods)
         (rows\<lparr>pending := rest,
               current := (if goods = [] then current rows else Some (Inr (last goods))),
               calls := calls rows @ rowCalls (slotsOf flds) (length goods)\<rparr>)"
  using assms(2-)
proof (induction goods arbitrary: vals0 direct rows)
  case Nil
  then have "rows\<lparr>pending := rest, current := current rows, calls := calls rows\<rparr> = rows"
    by simp
  then show ?case using Nil by (auto simp: rowCalls_def intro!: exI[of _ vals0])
next
  case (Cons v goods)
  let ?rows1 = "rows\<lparr>pending := map Inr goods @ rest, current := Some (Inr v),
                     calls := calls rows @ [Call_Next]\<rparr>"
  let ?rows2 = "?rows1\<lparr>calls := calls ?rows1 @ [Call_Scan (slotsOf flds)]\<rparr>"
  have nx: "Next rows = (True, ?rows1)" using Cons.prems by (simp add: Next_def)
  have lv: "length v = length flds" using Cons.prems by simp
  have sc: "Scan ?rows1 (slotsOf flds) (New base)
            = (None, StructVal (fillFields flds v Map.empty), ?rows2)"
    using Scan_struct_good[of ?rows1 v flds Map.empty] lv assms(1) by (simp add: New_def)
  have one: "structLoop base flds isPtr vals0 direct rows
             = structLoop base flds isPtr (slotsOf flds) (direct @ [structElem isPtr flds v]) ?rows2"
    using nx sc fieldsByTraversal_slots[OF assms(1) Cons.prems(1)]
    by (subst structLoop.simps) (simp add: structElem_def)
  have "\<exists>vals1. length vals1 = length flds \<and>
     structLoop base flds isPtr (slotsOf flds) (direct @ [structElem isPtr flds v]) ?rows2
     = structLoop base flds isPtr vals1
         ((direct @ [structElem isPtr flds v]) @ map (structElem isPtr flds) goods)
         (?rows2\<lparr>pending := rest,
               current := (if goods = [] then current ?rows2 else Some (Inr (last goods))),
               calls := calls ?rows2 @ rowCalls (slotsOf flds) (length goods)\<rparr>)"
    by (rule Cons.IH) (use Cons.prems in simp_all)
  then show ?case using one by (auto simp: rowCalls_Suc)
qed


lemma structLoop_all_good:
  assumes "Kind base = Struct"
    and "length vals0 = length flds"
    and "pending rows = map Inr goods"
    and "\<forall>v\<in>set goods. length v = length flds"
  shows "structLoop base flds isPtr vals0 direct rows
     = (None, direct @ map (structElem isPtr flds) goods,
        rows\<lparr>pending := [], current := None,
             calls := calls rows @ rowCalls (slotsOf flds) (length goods) @ [Call_Next]\<rparr>)"
proof -
  from structLoop_prefix[OF assms(1,2), of rows goods "[]" isPtr direct] assms(3,4)
  obtain vals1 where
    "structLoop base flds isPtr vals0 direct rows
     = structLoop base flds isPtr vals1 (direct @ map (structElem isPtr flds) goods)
         (rows\<lparr>pending := [],
               current := (if goods = [] then current rows else Some (Inr (last goods))),
               calls := calls rows @ rowCalls (slotsOf flds) (length goods)\<rparr>)"
    by auto
  then show ?thesis
    by (subst (asm) (2) structLoop.simps) (simp add: Next_def)
qed

lemma structLoop_fails:
  assumes "Kind base = Struct"
    and "length vals0 = length flds"
    and "pending rows = map Inr goods @ bad # rest"
    and "\<forall>v\<in>set goods. length v = length flds"
    and "rowFails (length flds) bad = Some e"
  shows "structLoop base flds isPtr vals0 direct rows
     = (Some e, direct @ map (structElem isPtr flds) goods,
        rows\<lparr>pending := rest, current := Some bad,
             calls := calls rows @ rowCalls (slotsOf flds) (length goods)
                      @ [Call_Next, Call_Scan (slotsOf flds)]\<rparr>)"
proof -
  from structLoop_prefix[OF assms(1,2), of rows goods "bad # rest" isPtr direct] assms(3,4)
  obtain vals1 where l: "length vals1 = length flds" and
    eq: "structLoop base flds isPtr vals0 direct rows
     = structLoop base flds isPtr vals1 (direct @ map (structElem isPtr flds) goods)
         (rows\<lparr>pending := bad # rest,
               current := (if goods = [] then current rows else Some (Inr (last goods))),
               calls := calls rows @ rowCalls (slotsOf flds) (length goods)\<rparr>)"
    by auto
  let ?r0 = "rows\<lparr>pending := bad # rest,
               current := (if goods = [] then current rows else Some (Inr (last goods))),
               calls := calls rows @ rowCalls (slotsOf flds) (length goods)\<rparr>"
  let ?r1 = "?r0\<lparr>pending := rest, current := Some bad, calls := calls ?r0 @ [Call_Next]\<rparr>"
  have nx: "Next ?r0 = (True, ?r1)" by (simp add: Next_def)
  have sc: "Scan ?r1 (slotsOf flds) (New base)
            = (Some e, New base, ?r1\<lparr>calls := calls ?r1 @ [Call_Scan (slotsOf flds)]\<rparr>)"
    by (rule Scan_bad) (use assms(5) in simp_all)
  show ?thesis
    unfolding eq using nx sc fieldsByTraversal_slots[OF assms(1) l]
    by (subst structLoop.simps) simp
qed

lemma Scan_scalar_good:
  assumes "current rows = Some (Inr [x])"
  shows "Scan rows [SelfAddr] inst
         = (None, Decoded x, rows\<lparr>calls := calls rows @ [Call_Scan [SelfAddr]]\<rparr>)"
  using assms by (simp add: Scan_def Let_def)

lemma scalarLoop_prefix:
  assumes "pending rows = map (\<lambda>x. Inr [x]) goods @ rest"
  shows "scalarLoop base isPtr direct rows
     = scalarLoop base isPtr (direct @ map (scalarElem isPtr) goods)
         (rows\<lparr>pending := rest,
               current := (if goods = [] then current rows else Some (Inr [last goods])),
               calls := calls rows @ rowCalls [SelfAddr] (length goods)\<rparr>)"
  using assms
proof (induction goods arbitrary: direct rows)
  case Nil
  then have "rows\<lparr>pending := rest, current := current rows, calls := calls rows\<rparr> = rows"
    by simp
  then show ?case by (simp add: rowCalls_def)
next
  case (Cons v goods)
  let ?rows1 = "rows\<lparr>pending := map (\<lambda>x. Inr [x]) goods @ rest, current := Some (Inr [v]),
                     calls := calls rows @ [Call_Next]\<rparr>"
  let ?rows2 = "?rows1\<lparr>calls := calls ?rows1 @ [Call_Scan [SelfAddr]]\<rparr>"
  have nx: "Next rows = (True, ?rows1)" using Cons.prems by (simp add: Next_def)
  have sc: "Scan ?rows1 [SelfAddr] (New base) = (None, Decoded v, ?rows2)"
    by (rule Scan_scalar_good) simp
  have one: "scalarLoop base isPtr direct rows
             = scalarLoop base isPtr (direct @ [scalarElem isPtr v]) ?rows2"
    using nx sc by (subst scalarLoop.simps) (simp add: scalarElem_def)
  have "scalarLoop base isPtr (direct @ [scalarElem isPtr v]) ?rows2
     = scalarLoop base isPtr
         ((direct @ [scalarElem isPtr v]) @ map (scalarElem isPtr) goods)
         (?rows2\<lparr>pending := rest,
               current := (if goods = [] then current ?rows2 else Some (Inr [last goods])),
               calls := calls ?rows2 @ rowCalls [SelfAddr] (length goods)\<rparr>)"
    by (rule Cons.IH) simp
  then show ?case using one by (auto simp: rowCalls_Suc)
qed

lemma scalarLoop_all_good:
  assumes "pending rows = map (\<lambda>x. Inr [x]) goods"
  shows "scalarLoop base isPtr direct rows
     = (None, direct @ map (scalarElem isPtr) goods,
        rows\<lparr>pending := [], current := None,
             calls := calls rows @ rowCalls [SelfAddr] (length goods) @ [Call_Next]\<rparr>)"
proof -
  have "scalarLoop base isPtr direct rows
     = scalarLoop base isPtr (direct @ map (scalarElem isPtr) goods)
         (rows\<lparr>pending := [],
               current := (if goods = [] then current rows else Some (Inr [last goods])),
               calls := calls rows @ rowCalls [SelfAddr] (length goods)\<rparr>)"
    using scalarLoop_prefix[of rows goods "[]" base isPtr direct] assms by simp
  then show ?thesis
    by (subst (asm) (2) scalarLoop.simps) (simp add: Next_def)
qed

lemma scalarLoop_fails:
  assumes "pending rows = map (\<lambda>x. Inr [x]) goods @ bad # rest"
    and "rowFails 1 bad = Some e"
  shows "scalarLoop base isPtr direct rows
     = (Some e, direct @ map (scalarElem isPtr) goods,
        rows\<lparr>pending := rest, current := Some bad,
             calls := calls rows @ rowCalls [SelfAddr] (length goods)
                      @ [Call_Next, Call_Scan [SelfAddr]]\<rparr>)"
proof -
  let ?r0 = "rows\<lparr>pending := bad # rest,
               current := (if goods = [] then current rows else Some (Inr [last goods])),
               calls := calls rows @ rowCalls [SelfAddr] (length goods)\<rparr>"
  let ?r1 = "?r0\<lparr>pending := rest, current := Some bad, calls := calls ?r0 @ [Call_Next]\<rparr>"
  have eq: "scalarLoop base isPtr direct rows
     = scalarLoop base isPtr (direct @ map (scalarElem isPtr) goods) ?r0"
    using scalarLoop_prefix[of rows goods "bad # rest" base isPtr direct] assms(1) by simp
  have nx: "Next ?r0 = (True, ?r1)" by (simp add: Next_def)
  have sc: "Scan ?r1 [SelfAddr] (New base)
            = (Some e, New base, ?r1\<lparr>calls := calls ?r1 @ [Call_Scan [SelfAddr]]\<rparr>)"
    by (rule Scan_bad) (use assms(2) in simp_all)
  show ?thesis
    unfolding eq using nx sc by (subst scalarLoop.simps) simp
qed


lemma missingFields_from_eq:
  "missingFields_from k ts =
     (if [] \<in> set ts then (k + length (takeWhile (\<lambda>t. t \<noteq> []) ts), Some MissingField)
      else (0, None))"
  by (induction ts arbitrary: k) auto

lemma entries_nonempty:
  "(n, p) \<in> set (fieldEntries f i fs) \<Longrightarrow> p \<noteq> []"
  "(n, p) \<in> set (structEntries f t) \<Longrightarrow> p \<noteq> []"
  by (induction f i fs and f t arbitrary: n p and n p rule: fieldEntries_structEntries.induct)
     (auto split: if_splits)

lemma entries_hd:
  "(n, p) \<in> set (fieldEntries f i fs) \<Longrightarrow> i \<le> hd p"
  by (induction fs arbitrary: i) (fastforce split: if_splits)+

lemma entries_distinct:
  "distinct (map snd (fieldEntries f i fs))"
  "distinct (map snd (structEntries f t))"
proof (induction f i fs and f t rule: fieldEntries_structEntries.induct)
  case (2 f i fi t rest)
  have sep: "\<And>n' p. (n', i # p) \<in> set (fieldEntries f (Suc i) rest) \<Longrightarrow> False"
    using entries_hd[of _ _ f "Suc i" rest] by fastforce
  have inj: "distinct (map snd (structEntries f t)) \<Longrightarrow>
             distinct (map snd (map (\<lambda>(n, p). (n, i # p)) (structEntries f t)))"
    by (simp add: distinct_map inj_on_def comp_def case_prod_beta)
  show ?case using 2 inj
    by (auto simp: comp_def case_prod_beta dest: sep)
qed auto


lemma traversal_empty_iff:
  assumes "i < length cs"
  shows "(TraversalsByName m t cs ! i = []) = (\<not> hasField m t (cs ! i))"
proof (cases "map_of (TypeMapIndex m t) (cs ! i)")
  case None
  then show ?thesis using assms by (simp add: TraversalsByName_def hasField_def)
next
  case (Some p)
  then have "(cs ! i, p) \<in> set (structEntries (fn_apply (mapFunc m)) t)"
    by (auto simp: TypeMapIndex_def dest: map_of_SomeD)
  then have "p \<noteq> []" by (rule entries_nonempty(2))
  then show ?thesis using assms Some by (simp add: TraversalsByName_def hasField_def)
qed

lemma length_TraversalsByName [simp]: "length (TraversalsByName m t cs) = length cs"
  by (simp add: TraversalsByName_def)

lemma first_missing_less:
  "[] \<in> set xs \<Longrightarrow> length (takeWhile (\<lambda>t. t \<noteq> []) xs) < length xs"
  by (induction xs) auto

lemma first_missing_nth:
  "[] \<in> set xs \<Longrightarrow> xs ! length (takeWhile (\<lambda>t. t \<noteq> []) xs) = []"
  by (induction xs) auto

lemma traversal_set_iff:
  "([] \<in> set (TraversalsByName m t cs)) = (\<exists>c\<in>set cs. \<not> hasField m t c)"
proof -
  have "([] \<in> set (TraversalsByName m t cs))
        = (\<exists>i<length cs. TraversalsByName m t cs ! i = [])"
    using in_set_conv_nth[of "[]" "TraversalsByName m t cs"] by simp
  also have "\<dots> = (\<exists>i<length cs. \<not> hasField m t (cs ! i))"
    using traversal_empty_iff by blast
  also have "\<dots> = (\<exists>c\<in>set cs. \<not> hasField m t c)"
    by (metis in_set_conv_nth)
  finally show ?thesis .
qed

lemma traversal_distinct:
  assumes "i < length cs" and "j < length cs" and "cs ! j \<noteq> cs ! i"
    and "hasField m t (cs ! i)"
  shows "TraversalsByName m t cs ! j \<noteq> TraversalsByName m t cs ! i"
proof
  assume eq: "TraversalsByName m t cs ! j = TraversalsByName m t cs ! i"
  obtain p where pi: "map_of (TypeMapIndex m t) (cs ! i) = Some p"
    using assms(4) by (auto simp: hasField_def)
  then have ti: "TraversalsByName m t cs ! i = p" using assms(1)
    by (simp add: TraversalsByName_def)
  have pne: "p \<noteq> []"
    using traversal_empty_iff[OF assms(1), of m t] assms(4) ti by simp
  have "hasField m t (cs ! j)"
    using traversal_empty_iff[OF assms(2), of m t] eq ti pne by auto
  then obtain q where pj: "map_of (TypeMapIndex m t) (cs ! j) = Some q"
    by (auto simp: hasField_def)
  then have "q = p" using eq ti assms(2) by (simp add: TraversalsByName_def)
  then have "(cs ! i, p) \<in> set (TypeMapIndex m t)" "(cs ! j, p) \<in> set (TypeMapIndex m t)"
    using pi pj by (auto dest: map_of_SomeD)
  moreover have "inj_on snd (set (TypeMapIndex m t))"
    using entries_distinct(2)[of "fn_apply (mapFunc m)" t]
    by (simp add: TypeMapIndex_def distinct_map)
  ultimately have "(cs ! i, p) = (cs ! j, p)"
    using inj_onD[of snd "set (TypeMapIndex m t)" "(cs ! i, p)" "(cs ! j, p)"] by simp
  then show False using assms(3) by simp
qed

lemma fillFields_discard:
  "i < length flds \<Longrightarrow> flds ! i = [] \<Longrightarrow> length v = length flds \<Longrightarrow>
   fillFields flds (v[i := x]) mp = fillFields flds v mp"
proof (induction flds arbitrary: i v mp)
  case Nil
  then show ?case by simp
next
  case (Cons tr trs)
  then obtain y ys where v: "v = y # ys" by (cases v) auto
  show ?case
  proof (cases i)
    case 0
    then show ?thesis using Cons.prems v by simp
  next
    case (Suc k)
    then show ?thesis using Cons.prems v Cons.IH[of k ys] by simp
  qed
qed

lemma fillFields_other:
  "p \<notin> set flds \<Longrightarrow> fillFields flds v mp p = mp p"
  by (induction flds v mp rule: fillFields.induct) auto

lemma fillFields_matched:
  "i < length flds \<Longrightarrow> flds ! i \<noteq> [] \<Longrightarrow> length v = length flds \<Longrightarrow>
   (\<forall>j. i < j \<and> j < length flds \<longrightarrow> flds ! j \<noteq> flds ! i) \<Longrightarrow>
   fillFields flds v mp (flds ! i) = Some (v ! i)"
proof (induction flds arbitrary: i v mp)
  case Nil
  then show ?case by simp
next
  case (Cons tr trs)
  then obtain y ys where v: "v = y # ys" by (cases v) auto
  show ?case
  proof (cases i)
    case 0
    have "tr \<notin> set trs"
    proof
      assume "tr \<in> set trs"
      then obtain k where "k < length trs" "trs ! k = tr" by (auto simp: in_set_conv_nth)
      then show False using Cons.prems(4)[rule_format, of "Suc k"] 0 by simp
    qed
    then show ?thesis using 0 v Cons.prems(2) by (simp add: fillFields_other)
  next
    case (Suc k)
    have "\<forall>j. k < j \<and> j < length trs \<longrightarrow> trs ! j \<noteq> trs ! k"
      using Cons.prems(4) Suc by (metis Suc_less_eq length_Cons nth_Cons_Suc)
    then show ?thesis using Suc v Cons.prems Cons.IH[of k ys] by simp
  qed
qed

lemma isScannable_False_Struct: "isScannable g t = (False, g1) \<Longrightarrow> Kind t = Struct"
  by (auto simp: isScannable_def Let_def split: if_splits prod.splits)

lemma rowsMapper_calls [simp]: "rowsMapper (rows\<lparr>calls := cs\<rparr>) g = rowsMapper rows g"
  by (simp add: rowsMapper_def)

lemma scanAll_composite:
  assumes "isScannable g (Deref el) = (False, g1)"
    and "columns_result rows = Inr columns"
    and "rowsMapper rows g1 = (m, g2)"
    and "[] \<notin> set (TraversalsByName m (Deref el) columns) \<or> isUnsafe (dyn rows)"
  shows "scanAll rows (Pointer (SliceT n s el) direct) structOnly g
     = finish (SliceT n s el) g2
         (structLoop (Deref el) (TraversalsByName m (Deref el) columns) (Kind el = Ptr)
            (replicate (length columns) NilSlot) direct
            (rows\<lparr>calls := calls rows @ [Call_Columns]\<rparr>))"
  using assms
  by (auto simp: scanAll_def baseType_def Columns_def missingFields_def missingFields_from_eq
                 Let_def)

lemma scanAll_missing:
  assumes "isScannable g (Deref el) = (False, g1)"
    and "columns_result rows = Inr columns"
    and "rowsMapper rows g1 = (m, g2)"
    and "[] \<in> set (TraversalsByName m (Deref el) columns)"
    and "\<not> isUnsafe (dyn rows)"
  shows "scanAll rows (Pointer (SliceT n s el) direct) structOnly g
     = (Some (MissingDestName
               (columns ! length (takeWhile (\<lambda>t. t \<noteq> []) (TraversalsByName m (Deref el) columns)))
               (PtrT (SliceT n s el))),
        Pointer (SliceT n s el) direct, rows\<lparr>calls := calls rows @ [Call_Columns]\<rparr>, g2)"
proof -
  let ?flds = "TraversalsByName m (Deref el) columns"
  have "length (takeWhile (\<lambda>t. t \<noteq> []) ?flds) < length columns"
    using first_missing_less[OF assms(4)] by simp
  then show ?thesis using assms
    by (simp add: scanAll_def baseType_def Columns_def missingFields_def missingFields_from_eq
                  Let_def)
qed

lemma scanAll_scalar:
  assumes "isScannable g (Deref el) = (True, g1)"
    and "\<not> structOnly"
    and "columns_result rows = Inr columns"
    and "length columns \<le> 1"
  shows "scanAll rows (Pointer (SliceT n s el) direct) structOnly g
     = finish (SliceT n s el) g1
         (scalarLoop (Deref el) (Kind el = Ptr) direct
            (rows\<lparr>calls := calls rows @ [Call_Columns]\<rparr>))"
  using assms
  by (auto simp: scanAll_def baseType_def Columns_def Let_def)

section \<open>What scanAll returns once its checks have passed\<close>

lemma finish_None:
  "finish t g (None, direct, rows)
   = (map_option CursorError (final_err rows), Pointer t direct,
      rows\<lparr>calls := calls rows @ [Call_Err]\<rparr>, g)"
  by (simp add: finish_def Err_def)

lemma finish_Some: "finish t g (Some e, direct, rows) = (Some e, Pointer t direct, rows, g)"
  by (simp add: finish_def)

lemma scanAll_composite_good:
  assumes "isScannable g (Deref el) = (False, g1)"
    and "columns_result rows = Inr columns"
    and "rowsMapper rows g1 = (m, g2)"
    and "(\<forall>c\<in>set columns. hasField m (Deref el) c) \<or> isUnsafe (dyn rows)"
    and "pending rows = map Inr goods"
    and "\<forall>v\<in>set goods. length v = length columns"
    and "flds = TraversalsByName m (Deref el) columns"
  shows "scanAll rows (Pointer (SliceT n s el) direct) structOnly g
     = (map_option CursorError (final_err rows),
        Pointer (SliceT n s el) (direct @ map (structElem (Kind el = Ptr) flds) goods),
        rows\<lparr>pending := [], current := None,
             calls := calls rows @ [Call_Columns] @ rowCalls (slotsOf flds) (length goods)
                      @ [Call_Next, Call_Err]\<rparr>,
        g2)"
proof -
  have k: "Kind (Deref el) = Struct" using assms(1) by (rule isScannable_False_Struct)
  have ok: "[] \<notin> set (TraversalsByName m (Deref el) columns) \<or> isUnsafe (dyn rows)"
    using assms(4) traversal_set_iff[of m "Deref el" columns] by auto
  have loop: "structLoop (Deref el) flds (Kind el = Ptr) (replicate (length columns) NilSlot)
               direct (rows\<lparr>calls := calls rows @ [Call_Columns]\<rparr>)
     = (None, direct @ map (structElem (Kind el = Ptr) flds) goods,
        rows\<lparr>calls := calls rows @ [Call_Columns]\<rparr>\<lparr>pending := [], current := None,
             calls := calls (rows\<lparr>calls := calls rows @ [Call_Columns]\<rparr>)
                      @ rowCalls (slotsOf flds) (length goods) @ [Call_Next]\<rparr>)"
    by (rule structLoop_all_good) (use k assms(5,6,7) in simp_all)
  show ?thesis
    unfolding scanAll_composite[OF assms(1,2,3) ok] assms(7)[symmetric] loop
    by (simp add: finish_None)
qed

lemma scanAll_composite_fails:
  assumes "isScannable g (Deref el) = (False, g1)"
    and "columns_result rows = Inr columns"
    and "rowsMapper rows g1 = (m, g2)"
    and "(\<forall>c\<in>set columns. hasField m (Deref el) c) \<or> isUnsafe (dyn rows)"
    and "pending rows = map Inr goods @ bad # rest"
    and "\<forall>v\<in>set goods. length v = length columns"
    and "rowFails (length columns) bad = Some e"
    and "flds = TraversalsByName m (Deref el) columns"
  shows "scanAll rows (Pointer (SliceT n s el) direct) structOnly g
     = (Some e,
        Pointer (SliceT n s el) (direct @ map (structElem (Kind el = Ptr) flds) goods),
        rows\<lparr>pending := rest, current := Some bad,
             calls := calls rows @ [Call_Columns] @ rowCalls (slotsOf flds) (length goods)
                      @ [Call_Next, Call_Scan (slotsOf flds)]\<rparr>,
        g2)"
proof -
  have k: "Kind (Deref el) = Struct" using assms(1) by (rule isScannable_False_Struct)
  have ok: "[] \<notin> set (TraversalsByName m (Deref el) columns) \<or> isUnsafe (dyn rows)"
    using assms(4) traversal_set_iff[of m "Deref el" columns] by auto
  have loop: "structLoop (Deref el) flds (Kind el = Ptr) (replicate (length columns) NilSlot)
               direct (rows\<lparr>calls := calls rows @ [Call_Columns]\<rparr>)
     = (Some e, direct @ map (structElem (Kind el = Ptr) flds) goods,
        rows\<lparr>calls := calls rows @ [Call_Columns]\<rparr>\<lparr>pending := rest, current := Some bad,
             calls := calls (rows\<lparr>calls := calls rows @ [Call_Columns]\<rparr>)
                      @ rowCalls (slotsOf flds) (length goods)
                      @ [Call_Next, Call_Scan (slotsOf flds)]\<rparr>)"
    by (rule structLoop_fails) (use k assms(5,6,7,8) in simp_all)
  show ?thesis
    unfolding scanAll_composite[OF assms(1,2,3) ok] assms(8)[symmetric] loop
    by (simp add: finish_Some)
qed

lemma scanAll_scalar_good:
  assumes "isScannable g (Deref el) = (True, g1)"
    and "\<not> structOnly"
    and "columns_result rows = Inr columns"
    and "length columns \<le> 1"
    and "pending rows = map (\<lambda>x. Inr [x]) goods"
  shows "scanAll rows (Pointer (SliceT n s el) direct) structOnly g
     = (map_option CursorError (final_err rows),
        Pointer (SliceT n s el) (direct @ map (scalarElem (Kind el = Ptr)) goods),
        rows\<lparr>pending := [], current := None,
             calls := calls rows @ [Call_Columns] @ rowCalls [SelfAddr] (length goods)
                      @ [Call_Next, Call_Err]\<rparr>,
        g1)"
proof -
  have loop: "scalarLoop (Deref el) (Kind el = Ptr) direct
                (rows\<lparr>calls := calls rows @ [Call_Columns]\<rparr>)
     = (None, direct @ map (scalarElem (Kind el = Ptr)) goods,
        rows\<lparr>calls := calls rows @ [Call_Columns]\<rparr>\<lparr>pending := [], current := None,
             calls := calls (rows\<lparr>calls := calls rows @ [Call_Columns]\<rparr>)
                      @ rowCalls [SelfAddr] (length goods) @ [Call_Next]\<rparr>)"
    by (rule scalarLoop_all_good) (use assms(5) in simp)
  show ?thesis
    unfolding scanAll_scalar[OF assms(1,2,3,4)] loop
    by (simp add: finish_None)
qed

lemma scanAll_scalar_fails:
  assumes "isScannable g (Deref el) = (True, g1)"
    and "\<not> structOnly"
    and "columns_result rows = Inr columns"
    and "length columns \<le> 1"
    and "pending rows = map (\<lambda>x. Inr [x]) goods @ bad # rest"
    and "rowFails 1 bad = Some e"
  shows "scanAll rows (Pointer (SliceT n s el) direct) structOnly g
     = (Some e,
        Pointer (SliceT n s el) (direct @ map (scalarElem (Kind el = Ptr)) goods),
        rows\<lparr>pending := rest, current := Some bad,
             calls := calls rows @ [Call_Columns] @ rowCalls [SelfAddr] (length goods)
                      @ [Call_Next, Call_Scan [SelfAddr]]\<rparr>,
        g1)"
proof -
  have loop: "scalarLoop (Deref el) (Kind el = Ptr) direct
                (rows\<lparr>calls := calls rows @ [Call_Columns]\<rparr>)
     = (Some e, direct @ map (scalarElem (Kind el = Ptr)) goods,
        rows\<lparr>calls := calls rows @ [Call_Columns]\<rparr>\<lparr>pending := rest, current := Some bad,
             calls := calls (rows\<lparr>calls := calls rows @ [Call_Columns]\<rparr>)
                      @ rowCalls [SelfAddr] (length goods)
                      @ [Call_Next, Call_Scan [SelfAddr]]\<rparr>)"
    by (rule scalarLoop_fails) (use assms(5,6) in simp_all)
  show ?thesis
    unfolding scanAll_scalar[OF assms(1,2,3,4)] loop
    by (simp add: finish_Some)
qed

lemma scanAll_first_missing:
  assumes "isScannable g (Deref el) = (False, g1)"
    and "columns_result rows = Inr columns"
    and "rowsMapper rows g1 = (m, g2)"
    and "\<exists>c\<in>set columns. \<not> hasField m (Deref el) c"
    and "\<not> isUnsafe (dyn rows)"
  shows "\<exists>k<length columns. \<not> hasField m (Deref el) (columns ! k)
      \<and> (\<forall>j<k. hasField m (Deref el) (columns ! j))
      \<and> scanAll rows (Pointer (SliceT n s el) direct) structOnly g
        = (Some (MissingDestName (columns ! k) (PtrT (SliceT n s el))),
           Pointer (SliceT n s el) direct, rows\<lparr>calls := calls rows @ [Call_Columns]\<rparr>, g2)"
proof -
  let ?flds = "TraversalsByName m (Deref el) columns"
  let ?k = "length (takeWhile (\<lambda>t. t \<noteq> []) ?flds)"
  have mem: "[] \<in> set ?flds" using assms(4) traversal_set_iff[of m "Deref el" columns] by simp
  have k: "?k < length columns" using first_missing_less[OF mem] by simp
  have "?flds ! ?k = []" using first_missing_nth[OF mem] .
  then have nk: "\<not> hasField m (Deref el) (columns ! ?k)"
    using traversal_empty_iff[OF k, of m "Deref el"] by simp
  have before: "\<forall>j<?k. hasField m (Deref el) (columns ! j)"
  proof (intro allI impI)
    fix j assume j: "j < ?k"
    then have "takeWhile (\<lambda>t. t \<noteq> []) ?flds ! j \<in> set (takeWhile (\<lambda>t. t \<noteq> []) ?flds)"
      by simp
    then have "takeWhile (\<lambda>t. t \<noteq> []) ?flds ! j \<noteq> []"
      by (blast dest: set_takeWhileD)
    then have "?flds ! j \<noteq> []" using takeWhile_nth[OF j] by simp
    moreover have "j < length columns" using j k by simp
    ultimately show "hasField m (Deref el) (columns ! j)"
      using traversal_empty_iff[of j columns m "Deref el"] by simp
  qed
  show ?thesis
    using k nk before scanAll_missing[OF assms(1,2,3) mem assms(5)] by blast
qed

section \<open>A column without a field (C1)\<close>

lemma Scan_struct_error:
  assumes "Scan rows (slotsOf flds) (StructVal mp) = (Some e, v, rows')"
  shows "\<exists>msg. e = CursorError msg"
proof (cases "current rows")
  case None
  then show ?thesis using assms by (auto simp: Scan_def Let_def)
next
  case (Some r)
  show ?thesis
  proof (cases r)
    case (Inl msg)
    then show ?thesis using assms Some by (auto simp: Scan_def Let_def)
  next
    case (Inr vals)
    show ?thesis
    proof (cases "length vals = length flds")
      case True
      then show ?thesis using assms Some Inr assignAll_fill[OF True, of mp]
        by (auto simp: Scan_def Let_def)
    next
      case False
      then show ?thesis using assms Some Inr by (auto simp: Scan_def Let_def)
    qed
  qed
qed

lemma structLoop_error_cursor:
  "Kind base = Struct \<Longrightarrow> length vals = length flds \<Longrightarrow>
   structLoop base flds isPtr vals direct rows = (Some e, d, r) \<Longrightarrow> \<exists>msg. e = CursorError msg"
proof (induction base flds isPtr vals direct rows rule: structLoop.induct)
  case (1 base flds isPtr vals direct rows)
  obtain b rows1 where nx: "Next rows = (b, rows1)" by (cases "Next rows")
  have fb: "fieldsByTraversal base flds vals True = Inr (slotsOf flds)"
    using fieldsByTraversal_slots[OF "1.prems"(1,2)] .
  show ?case
  proof (cases b)
    case False
    then show ?thesis using "1.prems"(3) nx by (subst (asm) structLoop.simps) simp
  next
    case True
    obtain eo v rows2 where sc: "Scan rows1 (slotsOf flds) (New base) = (eo, v, rows2)"
      by (cases "Scan rows1 (slotsOf flds) (New base)")
    show ?thesis
    proof (cases eo)
      case None
      have loop: "structLoop base flds isPtr (slotsOf flds)
              (direct @ [if isPtr then PtrVal v else v]) rows2 = (Some e, d, r)"
        using "1.prems"(3) nx True fb sc None by (subst (asm) structLoop.simps) simp
      have bt: "b = True" using True by simp
      have sc': "(eo, (v, rows2)) = Scan rows1 (slotsOf flds) (New base)" using sc by simp
      have len: "length (slotsOf flds) = length flds" by simp
      show ?thesis
        using "1.IH"[OF nx[symmetric] bt fb sc' None refl "1.prems"(1) len loop] .
    next
      case (Some e')
      then have "e' = e"
        using "1.prems"(3) nx True fb sc by (subst (asm) structLoop.simps) simp
      then show ?thesis
        using Scan_struct_error[of rows1 flds Map.empty e v rows2] sc Some "1.prems"(1)
        by (simp add: New_def)
    qed
  qed
qed

lemma scanAll_lenient_error:
  assumes "isScannable g (Deref el) = (False, g1)"
    and "columns_result rows = Inr columns"
    and "rowsMapper rows g1 = (m, g2)"
    and "isUnsafe (dyn rows)"
    and "fst (scanAll rows (Pointer (SliceT n s el) direct) structOnly g) = Some e"
  shows "\<exists>msg. e = CursorError msg"
proof -
  let ?flds = "TraversalsByName m (Deref el) columns"
  let ?loop = "structLoop (Deref el) ?flds (Kind el = Ptr) (replicate (length columns) NilSlot)
                 direct (rows\<lparr>calls := calls rows @ [Call_Columns]\<rparr>)"
  have k: "Kind (Deref el) = Struct" using assms(1) by (rule isScannable_False_Struct)
  have eq: "scanAll rows (Pointer (SliceT n s el) direct) structOnly g
            = finish (SliceT n s el) g2 ?loop"
    using scanAll_composite[OF assms(1,2,3), of n s direct structOnly] assms(4) by simp
  obtain eo d r where l: "?loop = (eo, d, r)" by (cases ?loop)
  show ?thesis
  proof (cases eo)
    case None
    then show ?thesis using assms(5) eq l
      by (auto simp: finish_def Err_def)
  next
    case (Some e')
    then have "e' = e" using assms(5) eq l by (simp add: finish_def)
    then show ?thesis using structLoop_error_cursor[OF k _ l[unfolded Some]] by simp
  qed
qed

lemma ex1: "isScannable ex_globals ex_Person = (False, ex_globals\<lparr>mpr := Some (NewMapperFunc ''db'' ex_ToLower)\<rparr>)"
  by (simp add: isScannable_def ex_Person_def ex_globals_def init_globals_def mapper_def TypeMapIndex_def Let_def)

lemma ex2: "TypeMapIndex (NewMapperFunc ''db'' ex_ToLower) ex_Person = [(''id'', [0]), (''name'', [1])]"
  by (simp add: TypeMapIndex_def NewMapperFunc_def ex_ToLower_def ex_Person_def ascii_lower_def)

lemma ex_hasField:
  "hasField (NewMapperFunc ''db'' ex_ToLower) ex_Person ''name''"
  "hasField (NewMapperFunc ''db'' ex_ToLower) ex_Person ''id''"
  "\<not> hasField (NewMapperFunc ''db'' ex_ToLower) ex_Person ''nick''"
  by (simp_all add: hasField_def ex2)

lemma ex_traversals:
  "TraversalsByName (NewMapperFunc ''db'' ex_ToLower) ex_Person [''name'', ''nick'', ''id'']
   = [[1], [], [0]]"
  by (simp add: TraversalsByName_def ex2)

text \<open>
  C1. The destination points to a slice whose element type is field-mapped, the cursor
  reports its columns, and some column has no matching field under the mapper the scan
  uses. If the cursor is strict, scanAll returns the MissingField error
  ("missing destination name ...") that names the first column without a field; only
  Columns has been called on the cursor, no row has been taken, and the destination is
  unchanged. If the cursor is lenient, the missing field stops nothing: whatever error
  scanAll returns is one the cursor reported, and on the same scan otherwise sound, a
  cursor whose rows decode (one value per column) and that reports no error at the
  end, scanAll returns no error and appends one element per row, in order. A column
  without a field is bound to a discard slot and its value does not reach the element
  (the element is the same whatever that value is). Every column with a field is bound
  to the address of that field, and the field then holds the column's value provided no
  later column has the same name: when a name occurs more than once, all its columns
  write the same field and the last write stays.
\<close>

theorem scanAll_missing_field:
  assumes "dest = Pointer (SliceT n s el) direct"
    and "isScannable g (Deref el) = (False, g1)"
    and "columns_result rows = Inr columns"
    and "rowsMapper rows g1 = (m, g2)"
    and "\<exists>c\<in>set columns. \<not> hasField m (Deref el) c"
    and "flds = TraversalsByName m (Deref el) columns"
  shows "(\<not> isUnsafe (dyn rows) \<longrightarrow>
           (\<exists>k<length columns. \<not> hasField m (Deref el) (columns ! k)
              \<and> (\<forall>j<k. hasField m (Deref el) (columns ! j))
              \<and> scanAll rows dest structOnly g
                  = (Some (MissingDestName (columns ! k) (PtrT (SliceT n s el))), dest,
                     rows\<lparr>calls := calls rows @ [Call_Columns]\<rparr>, g2)))
    \<and> (isUnsafe (dyn rows) \<and> pending rows = map Inr goods
         \<and> (\<forall>v\<in>set goods. length v = length columns) \<and> final_err rows = None \<longrightarrow>
           scanAll rows dest structOnly g
             = (None,
                Pointer (SliceT n s el) (direct @ map (structElem (Kind el = Ptr) flds) goods),
                rows\<lparr>pending := [], current := None,
                     calls := calls rows @ [Call_Columns]
                              @ rowCalls (slotsOf flds) (length goods) @ [Call_Next, Call_Err]\<rparr>,
                g2)
           \<and> (\<forall>i<length columns. \<not> hasField m (Deref el) (columns ! i) \<longrightarrow>
                 slotsOf flds ! i = Discard
                 \<and> (\<forall>v\<in>set goods. \<forall>x.
                       structElem (Kind el = Ptr) flds (v[i := x]) = structElem (Kind el = Ptr) flds v))
           \<and> (\<forall>i<length columns.
                 hasField m (Deref el) (columns ! i)
                 \<and> (\<forall>j. i < j \<and> j < length columns \<longrightarrow> columns ! j \<noteq> columns ! i) \<longrightarrow>
                 slotsOf flds ! i = FieldAddr (flds ! i)
                 \<and> (\<forall>v\<in>set goods.
                       fieldOf (structElem (Kind el = Ptr) flds v) (flds ! i) = Some (v ! i)))
           \<and> (\<forall>i<length columns. hasField m (Deref el) (columns ! i) \<longrightarrow>
                 slotsOf flds ! i = FieldAddr (flds ! i)))
    \<and> (isUnsafe (dyn rows) \<longrightarrow>
          (\<forall>e. fst (scanAll rows dest structOnly g) = Some e \<longrightarrow> (\<exists>msg. e = CursorError msg)))"
proof (intro conjI impI)
  assume "\<not> isUnsafe (dyn rows)"
  then show "\<exists>k<length columns. \<not> hasField m (Deref el) (columns ! k)
              \<and> (\<forall>j<k. hasField m (Deref el) (columns ! j))
              \<and> scanAll rows dest structOnly g
                  = (Some (MissingDestName (columns ! k) (PtrT (SliceT n s el))), dest,
                     rows\<lparr>calls := calls rows @ [Call_Columns]\<rparr>, g2)"
    unfolding assms(1) using scanAll_first_missing[OF assms(2,3,4,5)] by blast
next
  assume a: "isUnsafe (dyn rows) \<and> pending rows = map Inr goods
         \<and> (\<forall>v\<in>set goods. length v = length columns) \<and> final_err rows = None"
  then show "scanAll rows dest structOnly g
             = (None,
                Pointer (SliceT n s el) (direct @ map (structElem (Kind el = Ptr) flds) goods),
                rows\<lparr>pending := [], current := None,
                     calls := calls rows @ [Call_Columns]
                              @ rowCalls (slotsOf flds) (length goods) @ [Call_Next, Call_Err]\<rparr>,
                g2)"
    unfolding assms(1)
    using scanAll_composite_good[OF assms(2,3,4) _ _ _ assms(6), of goods n s direct structOnly]
    by simp
next
  assume a: "isUnsafe (dyn rows) \<and> pending rows = map Inr goods
         \<and> (\<forall>v\<in>set goods. length v = length columns) \<and> final_err rows = None"
  show "\<forall>i<length columns. \<not> hasField m (Deref el) (columns ! i) \<longrightarrow>
                 slotsOf flds ! i = Discard
                 \<and> (\<forall>v\<in>set goods. \<forall>x.
                       structElem (Kind el = Ptr) flds (v[i := x]) = structElem (Kind el = Ptr) flds v)"
  proof (intro allI impI)
    fix i assume i: "i < length columns" and nf: "\<not> hasField m (Deref el) (columns ! i)"
    have e: "flds ! i = []" using traversal_empty_iff[OF i, of m "Deref el"] nf assms(6) by simp
    have il: "i < length flds" using i assms(6) by simp
    have 1: "slotsOf flds ! i = Discard" using e il by (simp add: slotsOf_def)
    have 2: "\<forall>v\<in>set goods. \<forall>x.
               structElem (Kind el = Ptr) flds (v[i := x]) = structElem (Kind el = Ptr) flds v"
    proof (intro ballI allI)
      fix v x assume "v \<in> set goods"
      then have "length v = length flds" using a assms(6) by simp
      then show "structElem (Kind el = Ptr) flds (v[i := x]) = structElem (Kind el = Ptr) flds v"
        using fillFields_discard[OF il e, of v x Map.empty] by (simp add: structElem_def)
    qed
    show "slotsOf flds ! i = Discard
                 \<and> (\<forall>v\<in>set goods. \<forall>x.
                       structElem (Kind el = Ptr) flds (v[i := x]) = structElem (Kind el = Ptr) flds v)"
      using 1 2 by simp
  qed
next
  assume a: "isUnsafe (dyn rows) \<and> pending rows = map Inr goods
         \<and> (\<forall>v\<in>set goods. length v = length columns) \<and> final_err rows = None"
  show "\<forall>i<length columns.
                 hasField m (Deref el) (columns ! i)
                 \<and> (\<forall>j. i < j \<and> j < length columns \<longrightarrow> columns ! j \<noteq> columns ! i) \<longrightarrow>
                 slotsOf flds ! i = FieldAddr (flds ! i)
                 \<and> (\<forall>v\<in>set goods.
                       fieldOf (structElem (Kind el = Ptr) flds v) (flds ! i) = Some (v ! i))"
  proof (intro allI impI)
    fix i assume i: "i < length columns"
      and h: "hasField m (Deref el) (columns ! i)
                 \<and> (\<forall>j. i < j \<and> j < length columns \<longrightarrow> columns ! j \<noteq> columns ! i)"
    have ne: "flds ! i \<noteq> []" using traversal_empty_iff[OF i, of m "Deref el"] h assms(6) by simp
    have il: "i < length flds" using i assms(6) by simp
    have later: "\<forall>j. i < j \<and> j < length flds \<longrightarrow> flds ! j \<noteq> flds ! i"
      using traversal_distinct[OF i, of _ m "Deref el"] h assms(6) by simp
    have 1: "slotsOf flds ! i = FieldAddr (flds ! i)" using ne il by (simp add: slotsOf_def)
    have 2: "\<forall>v\<in>set goods.
               fieldOf (structElem (Kind el = Ptr) flds v) (flds ! i) = Some (v ! i)"
    proof (intro ballI)
      fix v assume "v \<in> set goods"
      then have "length v = length flds" using a assms(6) by simp
      then show "fieldOf (structElem (Kind el = Ptr) flds v) (flds ! i) = Some (v ! i)"
        using fillFields_matched[OF il ne _ later, of v Map.empty] by (simp add: structElem_def)
    qed
    show "slotsOf flds ! i = FieldAddr (flds ! i)
                 \<and> (\<forall>v\<in>set goods.
                       fieldOf (structElem (Kind el = Ptr) flds v) (flds ! i) = Some (v ! i))"
      using 1 2 by simp
  qed
next
  show "\<forall>i<length columns. hasField m (Deref el) (columns ! i) \<longrightarrow>
                 slotsOf flds ! i = FieldAddr (flds ! i)"
  proof (intro allI impI)
    fix i assume i: "i < length columns" and h: "hasField m (Deref el) (columns ! i)"
    have ne: "flds ! i \<noteq> []" using traversal_empty_iff[OF i, of m "Deref el"] h assms(6) by simp
    have il: "i < length flds" using i assms(6) by simp
    show "slotsOf flds ! i = FieldAddr (flds ! i)" using ne il by (simp add: slotsOf_def)
  qed
next
  assume u: "isUnsafe (dyn rows)"
  show "\<forall>e. fst (scanAll rows dest structOnly g) = Some e \<longrightarrow> (\<exists>msg. e = CursorError msg)"
    unfolding assms(1) using scanAll_lenient_error[OF assms(2,3,4) u] by blast
qed

theorem scanAll_missing_field_witness:
  "scanAll (ex_rows [''name'', ''nick'', ''id''] [Inr [''alice'', ''al'', ''1'']] None)
     (Pointer (SliceT [] False ex_Person) []) False ex_globals
   = (Some (MissingDestName ''nick'' (PtrT (SliceT [] False ex_Person))),
      Pointer (SliceT [] False ex_Person) [],
      (ex_rows [''name'', ''nick'', ''id''] [Inr [''alice'', ''al'', ''1'']] None)
        \<lparr>calls := [Call_Columns]\<rparr>,
      ex_globals\<lparr>mpr := Some (NewMapperFunc ''db'' ex_ToLower)\<rparr>)
   \<and> fst (scanAll (ex_lenient_rows [''name'', ''nick'', ''id''] [Inr [''alice'', ''al'', ''1'']] None)
          (Pointer (SliceT [] False ex_Person) []) False ex_globals) = None
   \<and> fst (snd (scanAll (ex_lenient_rows [''name'', ''nick'', ''id''] [Inr [''alice'', ''al'', ''1'']] None)
          (Pointer (SliceT [] False ex_Person) []) False ex_globals))
      = Pointer (SliceT [] False ex_Person)
          [structElem False [[1], [], [0]] [''alice'', ''al'', ''1'']]
   \<and> fieldOf (structElem False [[1], [], [0]] [''alice'', ''al'', ''1'']) [1] = Some ''alice''
   \<and> fieldOf (structElem False [[1], [], [0]] [''alice'', ''al'', ''1'']) [0] = Some ''1''
   \<and> structElem False [[1], [], [0]] [''alice'', ''zzz'', ''1'']
      = (structElem False [[1], [], [0]] [''alice'', ''al'', ''1''] :: string goval)"
proof -
  let ?M = "NewMapperFunc ''db'' ex_ToLower"
  let ?g1 = "ex_globals\<lparr>mpr := Some ?M\<rparr>"
  let ?cols = "[''name'', ''nick'', ''id'']"
  let ?R = "ex_rows ?cols [Inr [''alice'', ''al'', ''1'']] None"
  let ?L = "ex_lenient_rows ?cols [Inr [''alice'', ''al'', ''1'']] None"
  let ?D = "Pointer (SliceT [] False ex_Person) [] :: string dest"
  have sc: "isScannable ex_globals (Deref ex_Person) = (False, ?g1)"
    using ex1 by (simp add: ex_Person_def)
  have tr: "[[1], [], [0]] = TraversalsByName ?M (Deref ex_Person) ?cols"
    using ex_traversals by (simp add: ex_Person_def)
  have miss: "\<exists>c\<in>set ?cols. \<not> hasField ?M (Deref ex_Person) c"
    using ex_hasField by (simp add: ex_Person_def)
  have hf: "hasField ?M (Deref ex_Person) ''name''" "\<not> hasField ?M (Deref ex_Person) ''nick''"
    using ex_hasField by (simp_all add: ex_Person_def)
  have mR: "rowsMapper ?R ?g1 = (?M, ?g1)"
    by (simp add: rowsMapper_def ex_rows_def mapper_def ex_globals_def init_globals_def)
  have mL: "rowsMapper ?L ?g1 = (?M, ?g1)"
    by (simp add: rowsMapper_def ex_lenient_rows_def)
  have strict: "\<exists>k<length ?cols. \<not> hasField ?M (Deref ex_Person) (?cols ! k)
              \<and> (\<forall>j<k. hasField ?M (Deref ex_Person) (?cols ! j))
              \<and> scanAll ?R ?D False ex_globals
                  = (Some (MissingDestName (?cols ! k) (PtrT (SliceT [] False ex_Person))), ?D,
                     ?R\<lparr>calls := calls ?R @ [Call_Columns]\<rparr>, ?g1)"
    using scanAll_missing_field[of ?D "[]" False ex_Person "[]" ex_globals ?g1 ?R ?cols ?M ?g1
             "[[1], [], [0]]" False "[]", OF refl sc _ mR miss tr]
    by (simp add: ex_rows_def)
  then obtain k where k: "k < length ?cols" "\<not> hasField ?M (Deref ex_Person) (?cols ! k)"
      "\<forall>j<k. hasField ?M (Deref ex_Person) (?cols ! j)"
      "scanAll ?R ?D False ex_globals
                  = (Some (MissingDestName (?cols ! k) (PtrT (SliceT [] False ex_Person))), ?D,
                     ?R\<lparr>calls := calls ?R @ [Call_Columns]\<rparr>, ?g1)"
    by blast
  have "k = 1"
  proof -
    have "k = 0 \<or> k = 1 \<or> k = 2" using k(1) by (auto simp: less_Suc_eq)
    then show ?thesis using k(2,3) hf ex_hasField(2) by (auto simp: ex_Person_def)
  qed
  then have A: "scanAll ?R ?D False ex_globals
                  = (Some (MissingDestName ''nick'' (PtrT (SliceT [] False ex_Person))), ?D,
                     ?R\<lparr>calls := [Call_Columns]\<rparr>, ?g1)"
    using k(4) by (simp add: ex_rows_def)
  have lenient: "scanAll ?L ?D False ex_globals
             = (None,
                Pointer (SliceT [] False ex_Person)
                  ([] @ map (structElem (Kind ex_Person = Ptr) [[1], [], [0]]) [[''alice'', ''al'', ''1'']]),
                ?L\<lparr>pending := [], current := None,
                     calls := calls ?L @ [Call_Columns]
                              @ rowCalls (slotsOf [[1], [], [0]]) (length [[''alice'', ''al'', ''1'']])
                              @ [Call_Next, Call_Err]\<rparr>,
                ?g1)"
    using scanAll_missing_field[of ?D "[]" False ex_Person "[]" ex_globals ?g1 ?L ?cols ?M ?g1
             "[[1], [], [0]]" False "[[''alice'', ''al'', ''1'']]", OF refl sc _ mL miss tr]
    by (simp add: ex_lenient_rows_def)
  have f: "fieldOf (structElem False [[1], [], [0]] [''alice'', ''al'', ''1'']) [1] = Some ''alice''"
     "fieldOf (structElem False [[1], [], [0]] [''alice'', ''al'', ''1'']) [0] = Some ''1''"
     "structElem False [[1], [], [0]] [''alice'', ''zzz'', ''1'']
      = (structElem False [[1], [], [0]] [''alice'', ''al'', ''1''] :: string goval)"
    by (simp_all add: structElem_def)
  show ?thesis using A lenient f by (simp add: ex_Person_def)
qed

section \<open>Scalar destinations and the column count (C3)\<close>

lemma ex_int_scannable: "isScannable ex_globals (Deref ex_int) = (True, ex_globals)"
  by (simp add: isScannable_def ex_int_def)

text \<open>
  C3 as stated fails for a cursor that reports no column at all: scanAll checks only for
  more than one column, so with a scalar destination, zero columns and zero rows it
  returns no error.
\<close>

theorem scanAll_zero_columns_accepted:
  "fst (scanAll (ex_rows [] [] None) (Pointer (SliceT [] False ex_int) []) False ex_globals) = None"
proof -
  have "scanAll (ex_rows [] [] None) (Pointer (SliceT [] False ex_int) []) False ex_globals
        = (map_option CursorError (final_err (ex_rows [] [] None :: string rowsi)),
           Pointer (SliceT [] False ex_int) ([] @ map (scalarElem (Kind ex_int = Ptr)) []),
           (ex_rows [] [] None)\<lparr>pending := [], current := None,
             calls := calls (ex_rows [] [] None :: string rowsi) @ [Call_Columns]
                      @ rowCalls [SelfAddr] (length ([] :: string list))
                      @ [Call_Next, Call_Err]\<rparr>,
           ex_globals)"
    using scanAll_scalar_good[OF ex_int_scannable, where structOnly = False
        and rows = "ex_rows [] [] None" and columns = "[]" and goods = "[]"
        and n = "[]" and s = False and direct = "[]"]
    by (simp add: ex_rows_def ex_int_def)
  then show ?thesis by (simp add: ex_rows_def)
qed

text \<open>
  C3, amended. The destination points to a slice with a scalar-like element type,
  structOnly is false and the cursor reports its columns. With more than one column
  scanAll fails with the ShapeMismatch error that names the kind of the element type
  and the actual column count, before any row is taken. With one column or none it
  never fails with ShapeMismatch. With exactly one column and rows that decode (one
  value each), it appends one decoded value per row, in cursor order, and returns what
  the cursor reports at the end.
\<close>

theorem scanAll_scalar_columns:
  assumes "dest = Pointer (SliceT n s el) direct"
    and "isScannable g (Deref el) = (True, g1)"
    and "\<not> structOnly"
    and "columns_result rows = Inr columns"
  shows "(1 < length columns \<longrightarrow>
            scanAll rows dest structOnly g
              = (Some (NonStructDest (Kind (Deref el)) (length columns)), dest,
                 rows\<lparr>calls := calls rows @ [Call_Columns]\<rparr>, g1)
            \<and> ShapeMismatch (NonStructDest (Kind (Deref el)) (length columns)))
    \<and> (length columns \<le> 1 \<longrightarrow>
            (\<forall>e. fst (scanAll rows dest structOnly g) = Some e \<longrightarrow> \<not> ShapeMismatch e))
    \<and> (length columns = 1 \<and> pending rows = map (\<lambda>x. Inr [x]) goods \<longrightarrow>
            scanAll rows dest structOnly g
              = (map_option CursorError (final_err rows),
                 Pointer (SliceT n s el) (direct @ map (scalarElem (Kind el = Ptr)) goods),
                 rows\<lparr>pending := [], current := None,
                      calls := calls rows @ [Call_Columns] @ rowCalls [SelfAddr] (length goods)
                               @ [Call_Next, Call_Err]\<rparr>,
                 g1))"
proof (intro conjI impI)
  assume "1 < length columns"
  then show "scanAll rows dest structOnly g
              = (Some (NonStructDest (Kind (Deref el)) (length columns)), dest,
                 rows\<lparr>calls := calls rows @ [Call_Columns]\<rparr>, g1)"
    using assms by (simp add: scanAll_def baseType_def Columns_def)
next
  show "ShapeMismatch (NonStructDest (Kind (Deref el)) (length columns))" by simp
next
  assume le: "length columns \<le> 1"
  show "\<forall>e. fst (scanAll rows dest structOnly g) = Some e \<longrightarrow> \<not> ShapeMismatch e"
  proof (intro allI impI)
    fix e assume e: "fst (scanAll rows dest structOnly g) = Some e"
    obtain d r g' where "scanAll rows dest structOnly g = (Some e, d, r, g')"
      using e by (cases "scanAll rows dest structOnly g") auto
    then have "rowLevel e"
      unfolding assms(1) scanAll_scalar[OF assms(2,3,4) le] by (rule finish_scalarLoop_error)
    then show "\<not> ShapeMismatch e" by (cases e) auto
  qed
next
  assume "length columns = 1 \<and> pending rows = map (\<lambda>x. Inr [x]) goods"
  then show "scanAll rows dest structOnly g
              = (map_option CursorError (final_err rows),
                 Pointer (SliceT n s el) (direct @ map (scalarElem (Kind el = Ptr)) goods),
                 rows\<lparr>pending := [], current := None,
                      calls := calls rows @ [Call_Columns] @ rowCalls [SelfAddr] (length goods)
                               @ [Call_Next, Call_Err]\<rparr>,
                 g1)"
    unfolding assms(1) using scanAll_scalar_good[OF assms(2,3,4)] by simp
qed

theorem scanAll_scalar_columns_witness:
  "scanAll (ex_rows [''id'', ''name''] [Inr [''1'', ''alice'']] None)
     (Pointer (SliceT [] False ex_int) []) False ex_globals
   = (Some (NonStructDest (Other Int') 2), Pointer (SliceT [] False ex_int) [],
      (ex_rows [''id'', ''name''] [Inr [''1'', ''alice'']] None)\<lparr>calls := [Call_Columns]\<rparr>,
      ex_globals)
   \<and> scanAll (ex_rows [''id''] [Inr [''7''], Inr [''8'']] None)
     (Pointer (SliceT [] False ex_int) [Decoded ''5'']) False ex_globals
   = (None, Pointer (SliceT [] False ex_int) [Decoded ''5'', Decoded ''7'', Decoded ''8''],
      (ex_rows [''id''] [] None)
        \<lparr>calls := [Call_Columns, Call_Next, Call_Scan [SelfAddr], Call_Next,
                   Call_Scan [SelfAddr], Call_Next, Call_Err]\<rparr>,
      ex_globals)"
proof -
  have 1: "1 < length [''id'', ''name''] \<longrightarrow>
     scanAll (ex_rows [''id'', ''name''] [Inr [''1'', ''alice'']] None)
       (Pointer (SliceT [] False ex_int) []) False ex_globals
     = (Some (NonStructDest (Kind (Deref ex_int)) (length [''id'', ''name''])),
        Pointer (SliceT [] False ex_int) [],
        (ex_rows [''id'', ''name''] [Inr [''1'', ''alice'']] None)
          \<lparr>calls := calls (ex_rows [''id'', ''name''] [Inr [''1'', ''alice'']] None :: string rowsi)
                    @ [Call_Columns]\<rparr>,
        ex_globals)
     \<and> ShapeMismatch (NonStructDest (Kind (Deref ex_int)) (length [''id'', ''name'']))"
    using scanAll_scalar_columns[where dest = "Pointer (SliceT [] False ex_int) []"
        and rows = "ex_rows [''id'', ''name''] [Inr [''1'', ''alice'']] None"
        and columns = "[''id'', ''name'']" and structOnly = False and goods = "[]",
        OF refl ex_int_scannable]
    by (simp add: ex_rows_def)
  have 2: "length [''id''] = 1 \<and>
       pending (ex_rows [''id''] [Inr [''7''], Inr [''8'']] None) = map (\<lambda>x. Inr [x]) [''7'', ''8''] \<longrightarrow>
     scanAll (ex_rows [''id''] [Inr [''7''], Inr [''8'']] None)
       (Pointer (SliceT [] False ex_int) [Decoded ''5'']) False ex_globals
     = (map_option CursorError (final_err (ex_rows [''id''] [Inr [''7''], Inr [''8'']] None)),
        Pointer (SliceT [] False ex_int)
          ([Decoded ''5''] @ map (scalarElem (Kind ex_int = Ptr)) [''7'', ''8'']),
        (ex_rows [''id''] [Inr [''7''], Inr [''8'']] None)\<lparr>pending := [], current := None,
            calls := calls (ex_rows [''id''] [Inr [''7''], Inr [''8'']] None)
                     @ [Call_Columns] @ rowCalls [SelfAddr] (length [''7'', ''8''])
                     @ [Call_Next, Call_Err]\<rparr>,
        ex_globals)"
    using scanAll_scalar_columns[where dest = "Pointer (SliceT [] False ex_int) [Decoded ''5'']"
        and rows = "ex_rows [''id''] [Inr [''7''], Inr [''8'']] None"
        and columns = "[''id'']" and structOnly = False and goods = "[''7'', ''8'']",
        OF refl ex_int_scannable]
    by (simp add: ex_rows_def)
  show ?thesis using 1 2
    by (simp add: ex_rows_def ex_int_def scalarElem_def rowCalls_def numeral_2_eq_2)
qed

section \<open>A row that fails to decode (C4)\<close>

text \<open>
  C4. The checks before the loop have passed, the first rows (\<open>goods\<close>, or \<open>xs\<close> for a
  scalar destination) decode and the next row \<open>bad\<close> fails to decode with the error
  \<open>e\<close>. Then scanAll returns \<open>e\<close> (for a row whose decode reports an error of the
  cursor, that very error), the destination holds what it held before followed by one
  element for each row decoded before, the rows after the failing one are still
  pending, and the last call on the cursor is the Scan that failed: neither Next nor
  Err is called after it.
\<close>

theorem scanAll_decode_error:
  assumes "dest = Pointer (SliceT n s el) direct"
    and "isScannable g (Deref el) = (scannable, g1)"
    and "\<not> (structOnly \<and> scannable)"
    and "columns_result rows = Inr columns"
    and "rowsMapper rows g1 = (m, g2)"
    and "flds = TraversalsByName m (Deref el) columns"
  shows "(\<not> scannable
          \<and> ((\<forall>c\<in>set columns. hasField m (Deref el) c) \<or> isUnsafe (dyn rows))
          \<and> pending rows = map Inr goods @ bad # rest
          \<and> (\<forall>v\<in>set goods. length v = length columns)
          \<and> rowFails (length columns) bad = Some e \<longrightarrow>
            scanAll rows dest structOnly g
              = (Some e,
                 Pointer (SliceT n s el) (direct @ map (structElem (Kind el = Ptr) flds) goods),
                 rows\<lparr>pending := rest, current := Some bad,
                      calls := calls rows @ [Call_Columns]
                               @ rowCalls (slotsOf flds) (length goods)
                               @ [Call_Next, Call_Scan (slotsOf flds)]\<rparr>,
                 g2))
    \<and> (scannable \<and> length columns \<le> 1
          \<and> pending rows = map (\<lambda>x. Inr [x]) xs @ bad # rest
          \<and> rowFails 1 bad = Some e \<longrightarrow>
            scanAll rows dest structOnly g
              = (Some e,
                 Pointer (SliceT n s el) (direct @ map (scalarElem (Kind el = Ptr)) xs),
                 rows\<lparr>pending := rest, current := Some bad,
                      calls := calls rows @ [Call_Columns]
                               @ rowCalls [SelfAddr] (length xs)
                               @ [Call_Next, Call_Scan [SelfAddr]]\<rparr>,
                 g1))
    \<and> (\<forall>k msg. bad = Inl msg \<and> rowFails k bad = Some e \<longrightarrow> e = CursorError msg)"
proof (intro conjI impI)
  assume a: "\<not> scannable
          \<and> ((\<forall>c\<in>set columns. hasField m (Deref el) c) \<or> isUnsafe (dyn rows))
          \<and> pending rows = map Inr goods @ bad # rest
          \<and> (\<forall>v\<in>set goods. length v = length columns)
          \<and> rowFails (length columns) bad = Some e"
  then have sc: "isScannable g (Deref el) = (False, g1)" using assms(2) by simp
  show "scanAll rows dest structOnly g
              = (Some e,
                 Pointer (SliceT n s el) (direct @ map (structElem (Kind el = Ptr) flds) goods),
                 rows\<lparr>pending := rest, current := Some bad,
                      calls := calls rows @ [Call_Columns]
                               @ rowCalls (slotsOf flds) (length goods)
                               @ [Call_Next, Call_Scan (slotsOf flds)]\<rparr>,
                 g2)"
    unfolding assms(1)
    using a scanAll_composite_fails[OF sc assms(4,5) _ _ _ _ assms(6),
             of goods bad rest e n s direct structOnly]
    by simp
next
  assume a: "scannable \<and> length columns \<le> 1
          \<and> pending rows = map (\<lambda>x. Inr [x]) xs @ bad # rest
          \<and> rowFails 1 bad = Some e"
  then have sc: "isScannable g (Deref el) = (True, g1)" and so: "\<not> structOnly"
    using assms(2,3) by simp_all
  show "scanAll rows dest structOnly g
              = (Some e,
                 Pointer (SliceT n s el) (direct @ map (scalarElem (Kind el = Ptr)) xs),
                 rows\<lparr>pending := rest, current := Some bad,
                      calls := calls rows @ [Call_Columns]
                               @ rowCalls [SelfAddr] (length xs)
                               @ [Call_Next, Call_Scan [SelfAddr]]\<rparr>,
                 g1)"
    unfolding assms(1)
    using a scanAll_scalar_fails[OF sc so assms(4), of xs bad rest e n s direct]
    by simp
next
  show "\<forall>k msg. bad = Inl msg \<and> rowFails k bad = Some e \<longrightarrow> e = CursorError msg" by auto
qed

theorem scanAll_decode_error_witness:
  "scanAll (ex_rows [''name'', ''id''] [Inr [''alice'', ''1''], Inl ''boom'', Inr [''carol'', ''3'']] None)
     (Pointer (SliceT [] False (PtrT ex_Person)) []) False ex_globals
   = (Some (CursorError ''boom''),
      Pointer (SliceT [] False (PtrT ex_Person)) [structElem True [[1], [0]] [''alice'', ''1'']],
      (ex_rows [''name'', ''id''] [Inr [''carol'', ''3'']] None)
        \<lparr>current := Some (Inl ''boom''),
         calls := [Call_Columns, Call_Next, Call_Scan [FieldAddr [1], FieldAddr [0]],
                   Call_Next, Call_Scan [FieldAddr [1], FieldAddr [0]]]\<rparr>,
      ex_globals\<lparr>mpr := Some (NewMapperFunc ''db'' ex_ToLower)\<rparr>)"
proof -
  let ?M = "NewMapperFunc ''db'' ex_ToLower"
  let ?g1 = "ex_globals\<lparr>mpr := Some ?M\<rparr>"
  let ?cols = "[''name'', ''id'']"
  let ?R = "ex_rows ?cols [Inr [''alice'', ''1''], Inl ''boom'', Inr [''carol'', ''3'']] None"
  let ?D = "Pointer (SliceT [] False (PtrT ex_Person)) [] :: string dest"
  have sc: "isScannable ex_globals (Deref (PtrT ex_Person)) = (False, ?g1)"
    using ex1 by simp
  have tr: "[[1], [0]] = TraversalsByName ?M (Deref (PtrT ex_Person)) ?cols"
    by (simp add: TraversalsByName_def ex2)
  have mR: "rowsMapper ?R ?g1 = (?M, ?g1)"
    by (simp add: rowsMapper_def ex_rows_def mapper_def ex_globals_def init_globals_def)
  have hyp: "\<not> False
          \<and> ((\<forall>c\<in>set ?cols. hasField ?M (Deref (PtrT ex_Person)) c) \<or> isUnsafe (dyn ?R))
          \<and> pending ?R = map Inr [[''alice'', ''1'']] @ Inl ''boom'' # [Inr [''carol'', ''3'']]
          \<and> (\<forall>v\<in>set [[''alice'', ''1'']]. length v = length ?cols)
          \<and> rowFails (length ?cols) (Inl ''boom'' :: string + string list) = Some (CursorError ''boom'')"
    using ex_hasField by (simp add: ex_rows_def)
  have "scanAll ?R ?D False ex_globals
              = (Some (CursorError ''boom''),
                 Pointer (SliceT [] False (PtrT ex_Person))
                   ([] @ map (structElem (Kind (PtrT ex_Person) = Ptr) [[1], [0]]) [[''alice'', ''1'']]),
                 ?R\<lparr>pending := [Inr [''carol'', ''3'']], current := Some (Inl ''boom''),
                      calls := calls ?R @ [Call_Columns]
                               @ rowCalls (slotsOf [[1], [0]]) (length [[''alice'', ''1'']])
                               @ [Call_Next, Call_Scan (slotsOf [[1], [0]])]\<rparr>,
                 ?g1)"
    using scanAll_decode_error[where dest = ?D and rows = ?R and columns = ?cols
        and structOnly = False and goods = "[[''alice'', ''1'']]" and bad = "Inl ''boom''"
        and rest = "[Inr [''carol'', ''3'']]" and e = "CursorError ''boom''"
        and flds = "[[1], [0]]" and xs = "[]",
        OF refl sc _ _ mR tr] hyp
    by (simp add: ex_rows_def)
  then show ?thesis
    by (simp add: ex_rows_def slotsOf_def rowCalls_def)
qed

section \<open>A cursor without rows (C7)\<close>

text \<open>
  C7 as stated fails: a cursor without rows and without iteration error can still make
  scanAll return an error, here the ShapeMismatch of an int destination against two
  columns.
\<close>

theorem scanAll_zero_rows_shape_error:
  "fst (scanAll (ex_rows [''id'', ''name''] [] None) (Pointer (SliceT [] False ex_int) []) False
          ex_globals)
   = Some (NonStructDest (Other Int') 2)"
  by (simp add: scanAll_def baseType_def Columns_def ex_rows_def isScannable_def ex_int_def)

text \<open>
  C7, amended. For a destination that points to a slice and a cursor without rows,
  scanAll leaves the destination as it was (nothing is appended), and it returns no
  error exactly when structOnly is not violated, the cursor reports no iteration error,
  Columns succeeds, a scalar-like element type meets at most one column, and, for a
  field-mapped element type under a strict cursor, every column has a matching field.
\<close>

theorem scanAll_zero_rows:
  assumes "dest = Pointer (SliceT n s el) direct"
    and "pending rows = []"
    and "isScannable g (Deref el) = (scannable, g1)"
    and "rowsMapper rows g1 = (m, g2)"
  shows "fst (snd (scanAll rows dest structOnly g)) = dest
    \<and> (fst (scanAll rows dest structOnly g) = None) =
        (\<not> (structOnly \<and> scannable) \<and> final_err rows = None
         \<and> (\<exists>columns. columns_result rows = Inr columns
               \<and> (scannable \<longrightarrow> length columns \<le> 1)
               \<and> (\<not> scannable \<and> \<not> isUnsafe (dyn rows) \<longrightarrow>
                     (\<forall>c\<in>set columns. hasField m (Deref el) c))))"
proof (cases "structOnly \<and> scannable")
  case True
  then show ?thesis using assms(1,3) by (simp add: scanAll_def baseType_def)
next
  case so: False
  show ?thesis
  proof (cases "columns_result rows")
    case (Inl e)
    then show ?thesis using assms(1,3) so
      by (auto simp: scanAll_def baseType_def Columns_def)
  next
    case (Inr columns)
    show ?thesis
    proof (cases scannable)
      case True
      then have sc: "isScannable g (Deref el) = (True, g1)" and nso: "\<not> structOnly"
        using assms(3) so by simp_all
      show ?thesis
      proof (cases "length columns \<le> 1")
        case le: True
        have "scanAll rows dest structOnly g
              = (map_option CursorError (final_err rows),
                 Pointer (SliceT n s el) (direct @ map (scalarElem (Kind el = Ptr)) []),
                 rows\<lparr>pending := [], current := None,
                      calls := calls rows @ [Call_Columns] @ rowCalls [SelfAddr] (length ([] :: 'a list))
                               @ [Call_Next, Call_Err]\<rparr>,
                 g1)"
          unfolding assms(1)
          by (rule scanAll_scalar_good[OF sc nso Inr le]) (use assms(2) in simp)
        then show ?thesis using assms(1) Inr True so le by simp
      next
        case False
        then show ?thesis using assms(1) sc nso Inr True
          by (simp add: scanAll_def baseType_def Columns_def)
      qed
    next
      case False
      then have sc: "isScannable g (Deref el) = (False, g1)" using assms(3) by simp
      show ?thesis
      proof (cases "(\<forall>c\<in>set columns. hasField m (Deref el) c) \<or> isUnsafe (dyn rows)")
        case ok: True
        have "scanAll rows dest structOnly g
              = (map_option CursorError (final_err rows),
                 Pointer (SliceT n s el)
                   (direct @ map (structElem (Kind el = Ptr) (TraversalsByName m (Deref el) columns)) []),
                 rows\<lparr>pending := [], current := None,
                      calls := calls rows @ [Call_Columns]
                               @ rowCalls (slotsOf (TraversalsByName m (Deref el) columns))
                                   (length ([] :: 'a list list))
                               @ [Call_Next, Call_Err]\<rparr>,
                 g2)"
          unfolding assms(1)
          by (rule scanAll_composite_good[OF sc Inr assms(4) ok _ _ refl]) (use assms(2) in simp_all)
        then show ?thesis using assms(1) Inr False ok by auto
      next
        case bad: False
        then have miss: "\<exists>c\<in>set columns. \<not> hasField m (Deref el) c"
          and strict: "\<not> isUnsafe (dyn rows)" by auto
        from scanAll_first_missing[OF sc Inr assms(4) miss strict, of n s direct structOnly]
        obtain k where "scanAll rows dest structOnly g
            = (Some (MissingDestName (columns ! k) (PtrT (SliceT n s el))), dest,
               rows\<lparr>calls := calls rows @ [Call_Columns]\<rparr>, g2)"
          unfolding assms(1) by blast
        then show ?thesis using Inr False bad by auto
      qed
    qed
  qed
qed

theorem scanAll_zero_rows_witness:
  "fst (scanAll (ex_rows [''name'', ''id''] [] None) (Pointer (SliceT [] False ex_Person) []) False
          ex_globals) = None
   \<and> fst (snd (scanAll (ex_rows [''name'', ''id''] [] None)
                 (Pointer (SliceT [] False ex_Person) []) False ex_globals))
       = (Pointer (SliceT [] False ex_Person) [] :: string dest)"
proof -
  let ?M = "NewMapperFunc ''db'' ex_ToLower"
  let ?g1 = "ex_globals\<lparr>mpr := Some ?M\<rparr>"
  let ?R = "ex_rows [''name'', ''id''] [] None"
  have sc: "isScannable ex_globals (Deref ex_Person) = (False, ?g1)"
    using ex1 by (simp add: ex_Person_def)
  have mR: "rowsMapper ?R ?g1 = (?M, ?g1)"
    by (simp add: rowsMapper_def ex_rows_def mapper_def ex_globals_def init_globals_def)
  have hf: "\<forall>c\<in>set [''name'', ''id'']. hasField ?M (Deref ex_Person) c"
    using ex_hasField by (simp add: ex_Person_def)
  show ?thesis
    using scanAll_zero_rows[where dest = "Pointer (SliceT [] False ex_Person) []"
        and rows = ?R and structOnly = False, OF refl _ sc mR] hf
    by (simp add: ex_rows_def)
qed

section \<open>The arguments a statement hands on (C9)\<close>

lemma slice_not_itself: "[SliceArg args] \<noteq> args"
proof
  assume "[SliceArg args] = args"
  then have "size_list size args = size_list size [SliceArg args]" by simp
  then show False by simp
qed

text \<open>
  C9. For each of \<^verbatim>\<open>Stmt.Exec\<close>, \<^verbatim>\<open>Stmt.Query\<close> and \<^verbatim>\<open>Stmt.QueryRow\<close> called with
  the arguments \<open>args\<close>, the embedded statement receives one call whose argument list
  is the single slice value holding \<open>args\<close>, and what the method returns is the embedded
  statement's answer to that one-element list. The list has length one and is never the
  list \<open>args\<close> itself: the arguments are not spread.
\<close>

theorem Stmt_passes_args_as_one_slice:
  "received (Stmt_embedded (snd (Stmt_Exec s c args)))
     = received (Stmt_embedded s) @ [[SliceArg args]]
   \<and> fst (Stmt_Exec s c args) = exec_answer (Stmt_embedded s) [SliceArg args]
   \<and> received (Stmt_embedded (snd (Stmt_Query s c args)))
     = received (Stmt_embedded s) @ [[SliceArg args]]
   \<and> snd (fst (Stmt_Query s c args)) = snd (query_answer (Stmt_embedded s) [SliceArg args])
   \<and> received (Stmt_embedded (snd (Stmt_QueryRow s c args)))
     = received (Stmt_embedded s) @ [[SliceArg args]]
   \<and> Row_err (fst (Stmt_QueryRow s c args)) = snd (query_answer (Stmt_embedded s) [SliceArg args])
   \<and> length [SliceArg args] = 1
   \<and> [SliceArg args] \<noteq> args"
  using slice_not_itself[of args]
  by (simp add: Stmt_Exec_def Stmt_Query_def Stmt_QueryRow_def sqlk_Exec_def sqlk_Query_def
           split: prod.splits)

theorem Stmt_passes_args_as_one_slice_witness:
  "received (Stmt_embedded (snd (Stmt_Exec ex_stmt () [Arg 1, Arg 2, Arg 3])))
     = [[SliceArg [Arg 1, Arg 2, Arg 3]]]
   \<and> fst (Stmt_Exec ex_stmt () [Arg 1, Arg 2, Arg 3]) = (1, None)
   \<and> received (Stmt_embedded (snd (Stmt_Query ex_stmt () [Arg 1, Arg 2, Arg 3])))
     = [[SliceArg [Arg 1, Arg 2, Arg 3]]]
   \<and> received (Stmt_embedded (snd (Stmt_QueryRow ex_stmt () [Arg 1, Arg 2, Arg 3])))
     = [[SliceArg [Arg 1, Arg 2, Arg 3]]]"
  using Stmt_passes_args_as_one_slice[of ex_stmt "()" "[Arg 1, Arg 2, Arg 3]"]
  by (simp add: ex_stmt_def)

end
